theory Spec2Isabelle
  imports Complex_Main "HOL-Library.AList" "HOL-Library.Sublist"
begin

section \<open>Runtime values of the extension\<close>

text \<open>
  The extension is TypeScript: its interfaces are erased at run time, and the values that
  reach \<open>validateConfig\<close> and \<open>mergeWithDefaults\<close> are arbitrary JavaScript values
  (a webview message, the result of \<open>JSON.parse\<close>). They are modelled by \<open>jsval\<close>.

  \<^item> A number is \<open>NaN\<close>, an infinity or a finite value. Finite values are exact rationals:
    the rounding of IEEE doubles and the sign of zero are outside the model.
  \<^item> A string is a list of code units; \<open>char\<close> stands for the code units below 256.
  \<^item> An object is the list of its own properties in insertion order, each key once.
    Inherited properties are not modelled, and neither is the engine's rule that
    index-like keys enumerate before the others.
\<close>

datatype jsnum = NaN | NegInf | Fin rat | PosInf

datatype jsval =
    JUndefined
  | JNull
  | JBool bool
  | JNum jsnum
  | JStr string
  | JArr "jsval list"
  | JObj "(string \<times> jsval) list"

text \<open>
  What is thrown: a \<open>TypeError\<close>, a \<open>SyntaxError\<close>, an \<open>Error\<close> with its message, or the error
  of a failed file operation with its \<open>code\<close>.
\<close>

datatype error = TypeError | SyntaxError | Error string | ErrnoException string

definition bindE :: "error + 'a \<Rightarrow> ('a \<Rightarrow> error + 'b) \<Rightarrow> error + 'b" where
  "bindE m f = (case m of Inl e \<Rightarrow> Inl e | Inr v \<Rightarrow> f v)"

fun typeof :: "jsval \<Rightarrow> string" where
  "typeof JUndefined = ''undefined''"
| "typeof JNull = ''object''"
| "typeof (JBool b) = ''boolean''"
| "typeof (JNum n) = ''number''"
| "typeof (JStr s) = ''string''"
| "typeof (JArr xs) = ''object''"
| "typeof (JObj kvs) = ''object''"

text \<open>ToBoolean: the falsy values are undefined, null, false, 0, NaN and the empty string.\<close>

fun truthy :: "jsval \<Rightarrow> bool" where
  "truthy JUndefined = False"
| "truthy JNull = False"
| "truthy (JBool b) = b"
| "truthy (JNum n) = (n \<noteq> NaN \<and> n \<noteq> Fin 0)"
| "truthy (JStr s) = (s \<noteq> [])"
| "truthy (JArr xs) = True"
| "truthy (JObj kvs) = True"

definition nullish :: "jsval \<Rightarrow> bool" where
  "nullish v = (v = JUndefined \<or> v = JNull)"

subsection \<open>Decimal numerals and array indices\<close>

definition digit :: "nat \<Rightarrow> char" where
  "digit d = ''0123456789'' ! d"

fun showNat :: "nat \<Rightarrow> string" where
  "showNat n = (if n < 10 then [digit n] else showNat (n div 10) @ [digit (n mod 10)])"

declare showNat.simps [simp del]

definition digit_value :: "char \<Rightarrow> nat option" where
  "digit_value c =
     (if (48::nat) \<le> of_char c \<and> of_char c \<le> (57::nat) then Some (of_char c - 48)
      else None)"

fun parseNat :: "nat \<Rightarrow> string \<Rightarrow> nat option" where
  "parseNat acc [] = Some acc"
| "parseNat acc (c # cs) =
     (case digit_value c of None \<Rightarrow> None | Some d \<Rightarrow> parseNat (10 * acc + d) cs)"

text \<open>A property key names an element exactly when it is the canonical numeral of its index.\<close>

definition array_index :: "string \<Rightarrow> nat option" where
  "array_index k =
     (if k = [] then None
      else case parseNat 0 k of
             None \<Rightarrow> None
           | Some n \<Rightarrow> if showNat n = k then Some n else None)"

subsection \<open>Property access\<close>

text \<open>
  \<open>getp v k\<close> is the read \<open>v.k\<close> (or \<open>v[k]\<close> for a string key): a \<open>TypeError\<close> on
  undefined and null, the own property of an object, an element or the length of an array
  or a string, and undefined otherwise.
\<close>

fun getp :: "jsval \<Rightarrow> string \<Rightarrow> error + jsval" where
  "getp JUndefined k = Inl TypeError"
| "getp JNull k = Inl TypeError"
| "getp (JBool b) k = Inr JUndefined"
| "getp (JNum n) k = Inr JUndefined"
| "getp (JStr s) k =
     Inr (if k = ''length'' then JNum (Fin (of_nat (length s)))
          else case array_index k of
                 None \<Rightarrow> JUndefined
               | Some i \<Rightarrow> if i < length s then JStr [s ! i] else JUndefined)"
| "getp (JArr xs) k =
     Inr (if k = ''length'' then JNum (Fin (of_nat (length xs)))
          else case array_index k of
                 None \<Rightarrow> JUndefined
               | Some i \<Rightarrow> if i < length xs then xs ! i else JUndefined)"
| "getp (JObj kvs) k = Inr (case map_of kvs k of None \<Rightarrow> JUndefined | Some v \<Rightarrow> v)"

text \<open>Optional chaining \<open>v?.k\<close>.\<close>

definition opt_get :: "jsval \<Rightarrow> string \<Rightarrow> error + jsval" where
  "opt_get v k = (if nullish v then Inr JUndefined else getp v k)"

section \<open>types.ts: the default configuration\<close>

definition default_setting :: "string \<Rightarrow> jsval" where
  "default_setting txt =
     JObj [(''enabled'', JBool True), (''mode'', JStr ''talk''),
           (''voice'', JStr ''Ava (Premium)''), (''text'', JStr txt)]"

definition DEFAULT_CONFIG :: jsval where
  "DEFAULT_CONFIG =
     JObj [(''enabled'', JBool True),
           (''volume'', JNum (Fin 70)),
           (''cooldown'', JNum (Fin 3)),
           (''notifications'',
              JObj [(''permission_prompt'', default_setting ''Permission required''),
                    (''idle_prompt'', default_setting ''Done''),
                    (''elicitation_dialog'', default_setting ''Input needed''),
                    (''response_complete'', default_setting ''Response ready'')])]"

section \<open>HookService.validateConfig\<close>

definition notificationTypes :: "string list" where
  "notificationTypes =
     [''permission_prompt'', ''idle_prompt'', ''elicitation_dialog'', ''response_complete'']"

text \<open>
  Every field of the validated object has the shape
  \<open>test(x.k) ? x.k : d.k\<close>, with \<open>x?.k\<close> in place of \<open>x.k\<close> inside the loop;
  \<open>rd\<close> is the read the test uses.
\<close>

definition pick ::
  "(jsval \<Rightarrow> string \<Rightarrow> error + jsval) \<Rightarrow> (jsval \<Rightarrow> bool) \<Rightarrow> jsval \<Rightarrow> jsval \<Rightarrow> string
     \<Rightarrow> error + jsval" where
  "pick rd test x d k = bindE (rd x k) (\<lambda>v. if test v then getp x k else getp d k)"

definition is_boolean :: "jsval \<Rightarrow> bool" where
  "is_boolean v = (typeof v = ''boolean'')"

definition is_number :: "jsval \<Rightarrow> bool" where
  "is_number v = (typeof v = ''number'')"

definition is_string :: "jsval \<Rightarrow> bool" where
  "is_string v = (typeof v = ''string'')"

definition is_mode :: "jsval \<Rightarrow> bool" where
  "is_mode v = (v = JStr ''talk'' \<or> v = JStr ''sound'')"

definition validatedSetting :: "jsval \<Rightarrow> jsval \<Rightarrow> error + jsval" where
  "validatedSetting setting defaultSetting =
     bindE (pick opt_get is_boolean setting defaultSetting ''enabled'') (\<lambda>e.
     bindE (pick opt_get is_mode setting defaultSetting ''mode'') (\<lambda>m.
     bindE (pick opt_get is_string setting defaultSetting ''voice'') (\<lambda>v.
     bindE (pick opt_get is_string setting defaultSetting ''text'') (\<lambda>t.
     bindE (pick opt_get is_string setting defaultSetting ''sound'') (\<lambda>s.
       Inr (JObj [(''enabled'', e), (''mode'', m), (''voice'', v), (''text'', t),
                  (''sound'', s)]))))))"

text \<open>The \<open>for\<close> loop over the four kinds, filling \<open>validatedNotifications\<close>.\<close>

fun validateLoop ::
  "string list \<Rightarrow> jsval \<Rightarrow> (string \<times> jsval) list \<Rightarrow> error + (string \<times> jsval) list" where
  "validateLoop [] notifications validated = Inr validated"
| "validateLoop (ty # tys) notifications validated =
     (case getp notifications ty of
        Inl e \<Rightarrow> Inl e
      | Inr setting \<Rightarrow>
          (case bindE (getp DEFAULT_CONFIG ''notifications'') (\<lambda>dn. getp dn ty) of
             Inl e \<Rightarrow> Inl e
           | Inr defaultSetting \<Rightarrow>
               (case validatedSetting setting defaultSetting of
                  Inl e \<Rightarrow> Inl e
                | Inr s \<Rightarrow> validateLoop tys notifications (AList.update ty s validated))))"

definition validateConfig :: "jsval \<Rightarrow> error + jsval" where
  "validateConfig config =
     (if \<not> truthy config \<or> typeof config \<noteq> ''object'' then Inr DEFAULT_CONFIG
      else
        bindE (getp config ''notifications'') (\<lambda>n.
        bindE (validateLoop notificationTypes (if truthy n then n else JObj []) [])
          (\<lambda>validatedNotifications.
        bindE (pick getp is_boolean config DEFAULT_CONFIG ''enabled'') (\<lambda>e.
        bindE (pick getp is_number config DEFAULT_CONFIG ''volume'') (\<lambda>v.
        bindE (pick getp is_number config DEFAULT_CONFIG ''cooldown'') (\<lambda>c.
          Inr (JObj [(''enabled'', e), (''volume'', v), (''cooldown'', c),
                     (''notifications'', JObj validatedNotifications)])))))))"


section \<open>HookService: escaping, sanitising and clamping\<close>

text \<open>
  \<open>replace_class cls rep s\<close> is \<open>s.replace(/[cls]/g, rep)\<close> for a character class and a
  replacement computed from the matched character.
\<close>

definition replace_class :: "(char \<Rightarrow> bool) \<Rightarrow> (char \<Rightarrow> string) \<Rightarrow> string \<Rightarrow> string" where
  "replace_class cls rep s = concat (map (\<lambda>c. if cls c then rep c else [c]) s)"

definition backslash :: char where
  "backslash = CHR 0x5C"

text \<open>The class \<^verbatim>\<open>[$`\\!"]\<close>: dollar, backquote, backslash, exclamation mark, double quote.\<close>

definition bash_special :: "char \<Rightarrow> bool" where
  "bash_special c = (c \<in> set [CHR ''$'', CHR 0x60, backslash, CHR ''!'', CHR 0x22])"

definition escapeForBash :: "string \<Rightarrow> string" where
  "escapeForBash str = replace_class bash_special (\<lambda>c. [backslash, c]) str"

definition code_unit :: "char \<Rightarrow> nat" where
  "code_unit c = of_char c"

definition in_range :: "char \<Rightarrow> char \<Rightarrow> char \<Rightarrow> bool" where
  "in_range lo hi c = (code_unit lo \<le> code_unit c \<and> code_unit c \<le> code_unit hi)"

text \<open>
  The class \<^verbatim>\<open>\s\<close> on the code units below 256: tab, line feed, vertical tab, form feed,
  carriage return, space and no-break space.
\<close>

definition js_whitespace :: "char \<Rightarrow> bool" where
  "js_whitespace c = (code_unit c \<in> set [9, 10, 11, 12, 13, 32, 160])"

text \<open>The characters kept by \<^verbatim>\<open>/[^a-zA-Z0-9\s\-_]/g\<close>.\<close>

definition sound_char :: "char \<Rightarrow> bool" where
  "sound_char c =
     (in_range CHR ''a'' CHR ''z'' c \<or> in_range CHR ''A'' CHR ''Z'' c \<or>
      in_range CHR ''0'' CHR ''9'' c \<or> js_whitespace c \<or> c = CHR ''-'' \<or> c = CHR ''_'')"

definition sanitizeSoundName :: "string \<Rightarrow> string" where
  "sanitizeSoundName name =
     (let sanitized = replace_class (\<lambda>c. \<not> sound_char c) (\<lambda>c. []) name
      in if sanitized \<noteq> [] then sanitized else ''Glass'')"

text \<open>\<open>SoundService\<close> has its own copy of the function.\<close>

definition SoundService_sanitizeSoundName :: "string \<Rightarrow> string" where
  "SoundService_sanitizeSoundName name =
     (let sanitized = replace_class (\<lambda>c. \<not> sound_char c) (\<lambda>c. []) name
      in if sanitized \<noteq> [] then sanitized else ''Glass'')"

subsection \<open>Numbers\<close>

fun num_le :: "jsnum \<Rightarrow> jsnum \<Rightarrow> bool" where
  "num_le NaN b = False"
| "num_le a NaN = False"
| "num_le NegInf b = True"
| "num_le a PosInf = True"
| "num_le (Fin x) (Fin y) = (x \<le> y)"
| "num_le a b = False"

definition Math_min :: "jsnum \<Rightarrow> jsnum \<Rightarrow> jsnum" where
  "Math_min a b = (if a = NaN \<or> b = NaN then NaN else if num_le a b then a else b)"

definition Math_max :: "jsnum \<Rightarrow> jsnum \<Rightarrow> jsnum" where
  "Math_max a b = (if a = NaN \<or> b = NaN then NaN else if num_le a b then b else a)"

text \<open>
  \<open>clampNumber\<close> starts with \<open>Number(value)\<close>. Its callers pass \<open>config.volume\<close> and
  \<open>config.cooldown\<close> of a validated configuration, which are numbers, and \<open>Number\<close> is the
  identity on a number; so the model takes the number.
\<close>

definition clampNumber :: "jsnum \<Rightarrow> jsnum \<Rightarrow> jsnum \<Rightarrow> jsnum \<Rightarrow> jsnum" where
  "clampNumber num lo hi defaultValue =
     (if num = NaN then defaultValue else Math_max lo (Math_min hi num))"

text \<open>Division of a number by a positive finite constant.\<close>

fun num_div :: "jsnum \<Rightarrow> rat \<Rightarrow> jsnum" where
  "num_div (Fin x) d = Fin (x / d)"
| "num_div a d = a"

text \<open>
  \<open>Number_toString\<close> is the conversion a template literal applies to a number. An integer
  below \<open>10^21\<close> in magnitude prints as its decimal numeral; \<open>fmt\<close> stands for the engine's
  shortest round-trip formatting of every other finite value.
\<close>

definition Number_toString :: "(rat \<Rightarrow> string) \<Rightarrow> jsnum \<Rightarrow> string" where
  "Number_toString fmt n =
     (case n of
        NaN \<Rightarrow> ''NaN''
      | PosInf \<Rightarrow> ''Infinity''
      | NegInf \<Rightarrow> ''-Infinity''
      | Fin x \<Rightarrow>
          if x = of_int \<lfloor>x\<rfloor> \<and> \<bar>x\<bar> < 10 ^ 21
          then (if x < 0 then ''-'' else []) @ showNat (nat \<bar>\<lfloor>x\<rfloor>\<bar>)
          else fmt x)"

definition Boolean_toString :: "bool \<Rightarrow> string" where
  "Boolean_toString b = (if b then ''true'' else ''false'')"

section \<open>The configuration as the script generators read it\<close>

text \<open>
  The generators are private and take a \<open>ClaudeNotifyConfig\<close>; both callers pass the
  result of \<open>validateConfig\<close>. The interface of \<open>types.ts\<close> is the model's record, and
  \<open>asConfig\<close> reads a run-time value at that interface.
\<close>

datatype NotificationType = permission_prompt | idle_prompt | elicitation_dialog | response_complete

fun type_name :: "NotificationType \<Rightarrow> string" where
  "type_name permission_prompt = ''permission_prompt''"
| "type_name idle_prompt = ''idle_prompt''"
| "type_name elicitation_dialog = ''elicitation_dialog''"
| "type_name response_complete = ''response_complete''"

datatype Mode = talk | sound

record NotificationSetting =
  enabled :: bool
  mode :: Mode
  voice :: "string option"
  spoken_text :: "string option"
  sound_name :: "string option"

record ClaudeNotifyConfig =
  config_enabled :: bool
  volume :: jsnum
  cooldown :: jsnum
  notifications :: "NotificationType \<Rightarrow> NotificationSetting"

definition field :: "jsval \<Rightarrow> string \<Rightarrow> jsval option" where
  "field v k = (case v of JObj kvs \<Rightarrow> map_of kvs k | _ \<Rightarrow> None)"

fun asOptionalString :: "jsval option \<Rightarrow> string option option" where
  "asOptionalString None = Some None"
| "asOptionalString (Some JUndefined) = Some None"
| "asOptionalString (Some (JStr s)) = Some (Some s)"
| "asOptionalString (Some v) = None"

fun asMode :: "jsval option \<Rightarrow> Mode option" where
  "asMode (Some (JStr s)) =
     (if s = ''talk'' then Some talk else if s = ''sound'' then Some sound else None)"
| "asMode v = None"

fun asBool :: "jsval option \<Rightarrow> bool option" where
  "asBool (Some (JBool b)) = Some b"
| "asBool v = None"

fun asNumber :: "jsval option \<Rightarrow> jsnum option" where
  "asNumber (Some (JNum n)) = Some n"
| "asNumber v = None"

definition asSetting :: "jsval option \<Rightarrow> NotificationSetting option" where
  "asSetting v =
     (case v of
        None \<Rightarrow> None
      | Some s \<Rightarrow>
          Option.bind (asBool (field s ''enabled'')) (\<lambda>e.
          Option.bind (asMode (field s ''mode'')) (\<lambda>m.
          Option.bind (asOptionalString (field s ''voice'')) (\<lambda>vo.
          Option.bind (asOptionalString (field s ''text'')) (\<lambda>tx.
          Option.bind (asOptionalString (field s ''sound'')) (\<lambda>so.
            Some \<lparr>enabled = e, mode = m, voice = vo, spoken_text = tx, sound_name = so\<rparr>))))))"

definition asConfig :: "jsval \<Rightarrow> ClaudeNotifyConfig option" where
  "asConfig c =
     Option.bind (asBool (field c ''enabled'')) (\<lambda>e.
     Option.bind (asNumber (field c ''volume'')) (\<lambda>v.
     Option.bind (asNumber (field c ''cooldown'')) (\<lambda>cd.
     Option.bind (field c ''notifications'') (\<lambda>n.
     Option.bind (asSetting (field n ''permission_prompt'')) (\<lambda>pp.
     Option.bind (asSetting (field n ''idle_prompt'')) (\<lambda>ip.
     Option.bind (asSetting (field n ''elicitation_dialog'')) (\<lambda>ed.
     Option.bind (asSetting (field n ''response_complete'')) (\<lambda>rc.
       Some \<lparr>config_enabled = e, volume = v, cooldown = cd,
             notifications = (\<lambda>ty. case ty of permission_prompt \<Rightarrow> pp | idle_prompt \<Rightarrow> ip
                                     | elicitation_dialog \<Rightarrow> ed | response_complete \<Rightarrow> rc)\<rparr>
     ))))))))"

section \<open>HookService: the three script generators\<close>

definition script_lines :: "string list \<Rightarrow> string" where
  "script_lines ls = concat (map (\<lambda>l. l @ [CHR 0x0A]) ls)"

text \<open>\<open>x || d\<close> on an optional string: the default replaces undefined and the empty string.\<close>

fun or_default :: "string option \<Rightarrow> string \<Rightarrow> string" where
  "or_default None d = d"
| "or_default (Some s) d = (if s \<noteq> [] then s else d)"

text \<open>The template that opens \<open>generateScript\<close>, split at its three interpolations.\<close>

definition notify_preamble :: "string list" where
  \<open>notify_preamble =
     [''#!/bin/bash'',
      ''# Claude Code Notify - Auto-generated script'',
      ''# Do not edit manually, changes will be overwritten'',
      '''',
      ''# ============ CONFIG ============'']\<close>

definition notify_gates :: "string list" where
  \<open>notify_gates =
     [''# ================================'',
      '''',
      ''# Exit if disabled'',
      ''if [[ "$ENABLED" != "true" ]]; then'',
      ''    exit 0'',
      ''fi'',
      '''',
      ''# Cooldown check'',
      ''LOCKFILE="/tmp/claude-notify.lock"'',
      ''if [[ -f "$LOCKFILE" && "$COOLDOWN" -gt 0 ]]; then'',
      ''    LAST=$(cat "$LOCKFILE" 2>/dev/null || echo 0)'',
      ''    NOW=$(date +%s)'',
      ''    if (( NOW - LAST < COOLDOWN )); then'',
      ''        exit 0'',
      ''    fi'',
      ''fi'',
      ''echo $(date +%s) > "$LOCKFILE"'',
      '''',
      ''# Read notification type from stdin'',
      ''INPUT=$(cat)'',
      ''TYPE=$(echo "$INPUT" | grep -o '"notification_type"[[:space:]]*:[[:space:]]*"[^"]*"' | sed 's/.*: *"//' | sed 's/"//')'',
      '''',
      ''# Play notification based on type'',
      ''case "$TYPE" in'']\<close>

definition talk_lines :: "string \<Rightarrow> string \<Rightarrow> string \<Rightarrow> string \<Rightarrow> string list" where
  \<open>talk_lines indent tmpfile voice_lit text_lit =
     [indent @ ''('',
      indent @ ''    TMPFILE="'' @ tmpfile @ ''"'',
      indent @ ''    say -v "'' @ voice_lit @ ''" -o "$TMPFILE" "'' @ text_lit @ ''"'',
      indent @ ''    afplay -v $VOLUME "$TMPFILE"'',
      indent @ ''    rm -f "$TMPFILE" 2>/dev/null'',
      indent @ '') &'']\<close>

definition sound_line :: "string \<Rightarrow> string \<Rightarrow> string" where
  \<open>sound_line indent sound_lit =
     indent @ ''afplay -v $VOLUME "/System/Library/Sounds/'' @ sound_lit @ ''.aiff" &''\<close>

text \<open>One iteration of the loop over the three kinds of the main script.\<close>

definition notify_case :: "NotificationType \<Rightarrow> NotificationSetting \<Rightarrow> string" where
  \<open>notify_case ty setting =
     (if \<not> enabled setting then
        script_lines [''    '' @ type_name ty @ '')'', ''        # Disabled'', ''        ;;'']
      else if mode setting = talk then
        (let voice = escapeForBash (or_default (voice setting) ''Ava'');
             text = escapeForBash
                      (or_default (spoken_text setting)
                         (replace_class (\<lambda>c. c = CHR ''_'') (\<lambda>c. '' '') (type_name ty)))
         in script_lines
              ([''    '' @ type_name ty @ '')'']
               @ talk_lines ''        '' ''/tmp/claude-notify-$$.aiff'' voice text
               @ [''        ;;'']))
      else
        (let snd = sanitizeSoundName (or_default (sound_name setting) ''Glass'')
         in script_lines
              [''    '' @ type_name ty @ '')'', sound_line ''        '' snd, ''        ;;'']))\<close>

fun notify_cases :: "NotificationType list \<Rightarrow> ClaudeNotifyConfig \<Rightarrow> string \<Rightarrow> string" where
  "notify_cases [] config script = script"
| "notify_cases (ty # tys) config script =
     notify_cases tys config (script @ notify_case ty (notifications config ty))"

definition notify_epilogue :: "string list" where
  \<open>notify_epilogue =
     [''    *'' @ '')'',
      ''        # Unknown notification type, ignore'',
      ''        ;;'',
      ''esac'',
      '''',
      ''exit 0'']\<close>

definition generateScript :: "(rat \<Rightarrow> string) \<Rightarrow> ClaudeNotifyConfig \<Rightarrow> string" where
  \<open>generateScript fmt config =
     (let vol = clampNumber (volume config) (Fin 0) (Fin 100) (Fin 70);
          volumeDecimal = num_div vol 100;
          cd = clampNumber (cooldown config) (Fin 0) (Fin 30) (Fin 3);
          script = script_lines
            (notify_preamble
             @ [''ENABLED="'' @ Boolean_toString (config_enabled config = True) @ ''"'',
                ''VOLUME="'' @ Number_toString fmt volumeDecimal @ ''"'',
                ''COOLDOWN="'' @ Number_toString fmt cd @ ''"'']
             @ notify_gates)
      in notify_cases [permission_prompt, idle_prompt, elicitation_dialog] config script
         @ script_lines notify_epilogue)\<close>

definition permission_preamble :: "string list" where
  \<open>permission_preamble =
     [''#!/bin/bash'',
      ''# Claude Code Notify - PermissionRequest Hook Script (Auto-generated)'',
      ''# Do not edit manually, changes will be overwritten'',
      ''# This script runs when Claude needs permission in VSCode IDE'',
      '''',
      ''# ============ CONFIG ============'']\<close>

definition permission_gates :: "string list" where
  \<open>permission_gates =
     [''# ================================'',
      '''',
      ''# Exit if disabled globally or permission_prompt is disabled'',
      ''if [[ "$ENABLED" != "true" || "$PERMISSION_PROMPT_ENABLED" != "true" ]]; then'',
      ''    exit 0'',
      ''fi'',
      '''',
      ''# Cooldown check (use separate lockfile to not interfere with other hooks)'',
      ''LOCKFILE="/tmp/claude-notify-permission.lock"'',
      ''if [[ -f "$LOCKFILE" && "$COOLDOWN" -gt 0 ]]; then'',
      ''    LAST=$(cat "$LOCKFILE" 2>/dev/null || echo 0)'',
      ''    NOW=$(date +%s)'',
      ''    if (( NOW - LAST < COOLDOWN )); then'',
      ''        exit 0'',
      ''    fi'',
      ''fi'',
      ''echo $(date +%s) > "$LOCKFILE"'',
      '''',
      ''# Play notification'']\<close>

definition generatePermissionScript :: "(rat \<Rightarrow> string) \<Rightarrow> ClaudeNotifyConfig \<Rightarrow> string" where
  \<open>generatePermissionScript fmt config =
     (let vol = clampNumber (volume config) (Fin 0) (Fin 100) (Fin 70);
          volumeDecimal = num_div vol 100;
          cd = clampNumber (cooldown config) (Fin 0) (Fin 30) (Fin 3);
          setting = notifications config permission_prompt;
          script = script_lines
            (permission_preamble
             @ [''ENABLED="'' @ Boolean_toString (config_enabled config = True) @ ''"'',
                ''PERMISSION_PROMPT_ENABLED="'' @ Boolean_toString (enabled setting = True) @ ''"'',
                ''VOLUME="'' @ Number_toString fmt volumeDecimal @ ''"'',
                ''COOLDOWN="'' @ Number_toString fmt cd @ ''"'']
             @ permission_gates)
      in script
         @ (if mode setting = talk then
              (let voice = escapeForBash (or_default (voice setting) ''Ava'');
                   text = escapeForBash (or_default (spoken_text setting) ''Permission required'')
               in script_lines
                    (talk_lines [] ''/tmp/claude-notify-permission-$$.aiff'' voice text))
            else
              (let snd = sanitizeSoundName (or_default (sound_name setting) ''Glass'')
               in script_lines [sound_line [] snd]))
         @ script_lines ['''', ''exit 0''])\<close>

definition stop_preamble :: "string list" where
  \<open>stop_preamble =
     [''#!/bin/bash'',
      ''# Claude Code Notify - Stop Hook Script (Auto-generated)'',
      ''# Do not edit manually, changes will be overwritten'',
      ''# This script runs when Claude finishes a response'',
      '''',
      ''# ============ CONFIG ============'']\<close>

definition stop_gates :: "string list" where
  \<open>stop_gates =
     [''# ================================'',
      '''',
      ''# Exit if disabled globally or response_complete is disabled'',
      ''if [[ "$ENABLED" != "true" || "$RESPONSE_COMPLETE_ENABLED" != "true" ]]; then'',
      ''    exit 0'',
      ''fi'',
      '''',
      ''# Cooldown check (use separate lockfile to not interfere with notification hook)'',
      ''LOCKFILE="/tmp/claude-notify-stop.lock"'',
      ''if [[ -f "$LOCKFILE" && "$COOLDOWN" -gt 0 ]]; then'',
      ''    LAST=$(cat "$LOCKFILE" 2>/dev/null || echo 0)'',
      ''    NOW=$(date +%s)'',
      ''    if (( NOW - LAST < COOLDOWN )); then'',
      ''        exit 0'',
      ''    fi'',
      ''fi'',
      ''echo $(date +%s) > "$LOCKFILE"'',
      '''',
      ''# Play notification'']\<close>

definition generateStopScript :: "(rat \<Rightarrow> string) \<Rightarrow> ClaudeNotifyConfig \<Rightarrow> string" where
  \<open>generateStopScript fmt config =
     (let vol = clampNumber (volume config) (Fin 0) (Fin 100) (Fin 70);
          volumeDecimal = num_div vol 100;
          cd = clampNumber (cooldown config) (Fin 0) (Fin 30) (Fin 3);
          setting = notifications config response_complete;
          script = script_lines
            (stop_preamble
             @ [''ENABLED="'' @ Boolean_toString (config_enabled config = True) @ ''"'',
                ''RESPONSE_COMPLETE_ENABLED="'' @ Boolean_toString (enabled setting = True) @ ''"'',
                ''VOLUME="'' @ Number_toString fmt volumeDecimal @ ''"'',
                ''COOLDOWN="'' @ Number_toString fmt cd @ ''"'']
             @ stop_gates)
      in script
         @ (if mode setting = talk then
              (let voice = escapeForBash (or_default (voice setting) ''Ava'');
                   text = escapeForBash (or_default (spoken_text setting) ''Response ready'')
               in script_lines (talk_lines [] ''/tmp/claude-notify-stop-$$.aiff'' voice text))
            else
              (let snd = sanitizeSoundName (or_default (sound_name setting) ''Glass'')
               in script_lines [sound_line [] snd]))
         @ script_lines ['''', ''exit 0''])\<close>


section \<open>The settings document of the external tool\<close>

text \<open>
  \<open>settings.json\<close> is read at the interfaces \<open>ClaudeSettings\<close>, \<open>ClaudeHookMatcher\<close> and
  \<open>ClaudeHookEntry\<close> of \<open>types.ts\<close>. The \<open>hooks\<close> object is the list of its event keys in
  insertion order; every other top-level key is kept as an opaque value. The interface
  requires the \<open>hooks\<close> array of a matcher, but the ownership tests guard its absence
  (\<open>hook.hooks?.some(...) ?? false\<close>), so the model admits a matcher without one.
\<close>

record ClaudeHookEntry =
  type :: string
  command :: string

record ClaudeHookMatcher =
  matcher :: string
  hooks :: "ClaudeHookEntry list option"

type_synonym hooks_object = "(string \<times> ClaudeHookMatcher list) list"

record ClaudeSettings =
  settings_hooks :: "hooks_object option"
  settings_rest :: "(string \<times> jsval) list"

text \<open>The paths the constructor computes from the home directory.\<close>

record HookService =
  claudeDir :: string
  hooksDir :: string
  scriptPath :: string
  scriptBackupPath :: string
  stopScriptPath :: string
  permissionScriptPath :: string
  settingsPath :: string
  settingsLockPath :: string

definition path_join :: "string \<Rightarrow> string \<Rightarrow> string" where
  "path_join dir name = dir @ ''/'' @ name"

definition new_HookService :: "string \<Rightarrow> HookService" where
  "new_HookService homedir =
     (let cd = path_join homedir ''.claude''; hd = path_join cd ''hooks''
      in \<lparr>claudeDir = cd,
          hooksDir = hd,
          scriptPath = path_join hd ''notify.sh'',
          scriptBackupPath = path_join hd ''notify.sh.backup'',
          stopScriptPath = path_join hd ''stop-notify.sh'',
          permissionScriptPath = path_join hd ''permission-notify.sh'',
          settingsPath = path_join cd ''settings.json'',
          settingsLockPath = path_join cd ''settings.json.lock''\<rparr>)"

subsection \<open>Ownership by exact path\<close>

definition isOurNotificationHook :: "HookService \<Rightarrow> ClaudeHookMatcher \<Rightarrow> bool" where
  "isOurNotificationHook svc hook =
     (case hooks hook of None \<Rightarrow> False
      | Some hks \<Rightarrow> list_ex (\<lambda>hk. command hk = scriptPath svc) hks)"

definition isOurStopHook :: "HookService \<Rightarrow> ClaudeHookMatcher \<Rightarrow> bool" where
  "isOurStopHook svc hook =
     (case hooks hook of None \<Rightarrow> False
      | Some hks \<Rightarrow> list_ex (\<lambda>hk. command hk = stopScriptPath svc) hks)"

definition isOurPermissionHook :: "HookService \<Rightarrow> ClaudeHookMatcher \<Rightarrow> bool" where
  "isOurPermissionHook svc hook =
     (case hooks hook of None \<Rightarrow> False
      | Some hks \<Rightarrow> list_ex (\<lambda>hk. command hk = permissionScriptPath svc) hks)"

subsection \<open>install: the update of the document under the lock\<close>

text \<open>
  \<open>if (hooks[key]) hooks[key] = hooks[key].filter(h => !ours(h))\<close>: an array is truthy
  even when empty, so the test is for the presence of the key.
\<close>

definition filter_event :: "string \<Rightarrow> (ClaudeHookMatcher \<Rightarrow> bool) \<Rightarrow> hooks_object \<Rightarrow> hooks_object" where
  "filter_event key ours h =
     (case map_of h key of
        None \<Rightarrow> h
      | Some ms \<Rightarrow> AList.update key (filter (\<lambda>m. \<not> ours m) ms) h)"

text \<open>\<open>hooks[key] = hooks[key] || []; hooks[key].push(entry)\<close>.\<close>

definition push_event :: "string \<Rightarrow> ClaudeHookMatcher \<Rightarrow> hooks_object \<Rightarrow> hooks_object" where
  "push_event key entry h =
     AList.update key ((case map_of h key of None \<Rightarrow> [] | Some ms \<Rightarrow> ms) @ [entry]) h"

definition notifyHook :: "HookService \<Rightarrow> ClaudeHookMatcher" where
  "notifyHook svc =
     \<lparr>matcher = ''permission_prompt|idle_prompt|elicitation_dialog'',
      hooks = Some [\<lparr>type = ''command'', command = scriptPath svc\<rparr>]\<rparr>"

definition permissionHook :: "HookService \<Rightarrow> ClaudeHookMatcher" where
  "permissionHook svc =
     \<lparr>matcher = ''*'', hooks = Some [\<lparr>type = ''command'', command = permissionScriptPath svc\<rparr>]\<rparr>"

definition stopHook :: "HookService \<Rightarrow> ClaudeHookMatcher" where
  "stopHook svc =
     \<lparr>matcher = ''*'', hooks = Some [\<lparr>type = ''command'', command = stopScriptPath svc\<rparr>]\<rparr>"

definition install_settings :: "HookService \<Rightarrow> ClaudeSettings \<Rightarrow> ClaudeSettings" where
  "install_settings svc settings =
     (let h0 = (case settings_hooks settings of None \<Rightarrow> [] | Some h \<Rightarrow> h);
          h1 = filter_event ''Notification'' (isOurNotificationHook svc) h0;
          h2 = filter_event ''Stop'' (isOurStopHook svc) h1;
          h3 = filter_event ''PermissionRequest'' (isOurPermissionHook svc) h2;
          h4 = push_event ''Notification'' (notifyHook svc) h3;
          h5 = push_event ''PermissionRequest'' (permissionHook svc) h4;
          h6 = push_event ''Stop'' (stopHook svc) h5
      in settings\<lparr>settings_hooks := Some h6\<rparr>)"

subsection \<open>remove: the update of the document under the lock\<close>

text \<open>
  \<open>if (settings.hooks?.[key]) { filter; if (length === 0) delete settings.hooks[key] }\<close>.
\<close>

definition strip_event :: "string \<Rightarrow> (ClaudeHookMatcher \<Rightarrow> bool) \<Rightarrow> ClaudeSettings \<Rightarrow> ClaudeSettings" where
  "strip_event key ours settings =
     (case settings_hooks settings of
        None \<Rightarrow> settings
      | Some h \<Rightarrow>
          (case map_of h key of
             None \<Rightarrow> settings
           | Some ms \<Rightarrow>
               (let kept = filter (\<lambda>m. \<not> ours m) ms
                in if length kept = 0
                   then settings\<lparr>settings_hooks := Some (AList.delete key h)\<rparr>
                   else settings\<lparr>settings_hooks := Some (AList.update key kept h)\<rparr>)))"

definition remove_settings :: "HookService \<Rightarrow> ClaudeSettings \<Rightarrow> ClaudeSettings" where
  "remove_settings svc settings =
     (let s1 = strip_event ''Notification'' (isOurNotificationHook svc) settings;
          s2 = strip_event ''Stop'' (isOurStopHook svc) s1;
          s3 = strip_event ''PermissionRequest'' (isOurPermissionHook svc) s2
      in case settings_hooks s3 of
           None \<Rightarrow> s3
         | Some h \<Rightarrow> if length h = 0 then s3\<lparr>settings_hooks := None\<rparr> else s3)"

section \<open>The files of the extension\<close>

text \<open>
  The state is the clock and the files the two services touch, each absent or holding a
  content. The text of \<open>settings.json\<close> is the document it parses to, or is not JSON at
  all. Failures of the file system other than a missing file and an existing lockfile
  (permissions, a full disk) are outside the model, and so is the temporary file that
  \<open>saveSettings\<close> renames over \<open>settings.json\<close>.
\<close>

datatype settings_text = Json ClaudeSettings | Corrupted

record lockfile =
  lock_pid :: nat
  mtimeMs :: int

text \<open>
  The directory \<open>~/.claude\<close> is missing, present but not writable, or writable. At the
  path of the lockfile there is nothing, a file, or a name that cannot be read: a symbolic
  link whose target is missing, for which an exclusive create fails with \<open>EEXIST\<close> and
  \<open>stat\<close> with \<open>ENOENT\<close>. The directory \<open>hooks\<close> inside \<open>~/.claude\<close> and the permissions of
  the script files are not modelled: writing and deleting the scripts succeeds.
\<close>

datatype directory = Missing | ReadOnly | Writable

datatype lock_entry = LockFile lockfile | DanglingLink

record files =
  clock :: int
  claude_dir :: directory
  settings_json :: "settings_text option"
  settings_json_lock :: "lock_entry option"
  notify_sh :: "string option"
  notify_sh_backup :: "string option"
  stop_notify_sh :: "string option"
  permission_notify_sh :: "string option"

text \<open>\<open>content.includes(pattern)\<close>.\<close>

fun str_includes :: "string \<Rightarrow> string \<Rightarrow> bool" where
  "str_includes pattern [] = (pattern = [])"
| "str_includes pattern (c # cs) = (prefix pattern (c # cs) \<or> str_includes pattern cs)"

definition backupExistingScript :: "files \<Rightarrow> files" where
  "backupExistingScript s =
     (case notify_sh s of
        None \<Rightarrow> s
      | Some content \<Rightarrow>
          if str_includes ''# Claude Code Notify - Auto-generated script'' content then s
          else s\<lparr>notify_sh_backup := Some content\<rparr>)"

subsection \<open>The lock\<close>

text \<open>
  The three file operations of the lock. \<open>writeFile\<close> with the flag \<open>wx\<close> fails with
  \<open>EEXIST\<close> when the name exists, and otherwise with \<open>ENOENT\<close> or \<open>EACCES\<close> when the
  directory is missing or not writable. \<open>stat\<close> reads the modification time of a file.
  \<open>unlink\<close> needs a writable directory.
\<close>

definition create_lockfile :: "nat \<Rightarrow> files \<Rightarrow> error + files" where
  "create_lockfile pid s =
     (case settings_json_lock s of
        Some entry \<Rightarrow> Inl (ErrnoException ''EEXIST'')
      | None \<Rightarrow>
          (case claude_dir s of
             Missing \<Rightarrow> Inl (ErrnoException ''ENOENT'')
           | ReadOnly \<Rightarrow> Inl (ErrnoException ''EACCES'')
           | Writable \<Rightarrow>
               Inr (s\<lparr>settings_json_lock :=
                         Some (LockFile \<lparr>lock_pid = pid, mtimeMs = clock s\<rparr>)\<rparr>)))"

definition stat_lockfile :: "files \<Rightarrow> error + int" where
  "stat_lockfile s =
     (case settings_json_lock s of
        None \<Rightarrow> Inl (ErrnoException ''ENOENT'')
      | Some DanglingLink \<Rightarrow> Inl (ErrnoException ''ENOENT'')
      | Some (LockFile l) \<Rightarrow> Inr (mtimeMs l))"

definition unlink_lockfile :: "files \<Rightarrow> error + files" where
  "unlink_lockfile s =
     (case settings_json_lock s of
        None \<Rightarrow> Inl (ErrnoException ''ENOENT'')
      | Some entry \<Rightarrow>
          if claude_dir s = Writable then Inr (s\<lparr>settings_json_lock := None\<rparr>)
          else Inl (ErrnoException ''EACCES''))"

text \<open>
  The loop of \<open>acquireSettingsLock\<close>, from its second statement on. An error of the create
  other than \<open>EEXIST\<close> is thrown again. When \<open>stat\<close> or \<open>unlink\<close> fails, the \<open>catch\<close> goes
  straight to the next round, past the check of the timeout and the sleep; so does a
  successful \<open>unlink\<close> of a stale lockfile. The loop need not end: the result \<open>None\<close> is a
  call that never returns. The model is of one process: nothing else creates or deletes
  the lockfile while the loop runs, and the clock advances by the retry interval while the
  loop sleeps and not otherwise.
\<close>

definition retryInterval :: int where
  "retryInterval = 100"

definition lock_timeout_message :: string where
  "lock_timeout_message =
     ''Timeout waiting for settings.json lock. Another process may be modifying Claude settings.''"

partial_function (option) acquireLoop ::
  "nat \<Rightarrow> int \<Rightarrow> int \<Rightarrow> files \<Rightarrow> ((error + unit) \<times> files) option" where
  "acquireLoop pid timeoutMs startTime s =
     (case create_lockfile pid s of
        Inr s' \<Rightarrow> Some (Inr (), s')
      | Inl error \<Rightarrow>
          if error \<noteq> ErrnoException ''EEXIST'' then Some (Inl error, s)
          else
            (case stat_lockfile s of
               Inl e \<Rightarrow> acquireLoop pid timeoutMs startTime s
             | Inr mtime \<Rightarrow>
                 if clock s - mtime > 30000 then
                   (case unlink_lockfile s of
                      Inl e \<Rightarrow> acquireLoop pid timeoutMs startTime s
                    | Inr s' \<Rightarrow> acquireLoop pid timeoutMs startTime s')
                 else if clock s - startTime > timeoutMs then
                   Some (Inl (Error lock_timeout_message), s)
                 else acquireLoop pid timeoutMs startTime (s\<lparr>clock := clock s + retryInterval\<rparr>)))"

definition acquireSettingsLock ::
  "nat \<Rightarrow> int \<Rightarrow> files \<Rightarrow> ((error + unit) \<times> files) option" where
  "acquireSettingsLock pid timeoutMs s = acquireLoop pid timeoutMs (clock s) s"

text \<open>\<open>releaseSettingsLock\<close> ignores the error of the \<open>unlink\<close>.\<close>

definition releaseSettingsLock :: "files \<Rightarrow> files" where
  "releaseSettingsLock s = (case unlink_lockfile s of Inl e \<Rightarrow> s | Inr s' \<Rightarrow> s')"

subsection \<open>Reading and writing the document\<close>

definition corrupted_message :: string where
  "corrupted_message =
     ''Claude Code settings.json is corrupted (invalid JSON). '' @
     ''Please fix the file manually at ~/.claude/settings.json before installing the hook.''"

definition empty_settings :: ClaudeSettings where
  "empty_settings = \<lparr>settings_hooks = None, settings_rest = []\<rparr>"

definition loadSettings :: "files \<Rightarrow> error + ClaudeSettings" where
  "loadSettings s =
     (case settings_json s of
        None \<Rightarrow> Inr empty_settings
      | Some Corrupted \<Rightarrow> Inl (Error corrupted_message)
      | Some (Json settings) \<Rightarrow> Inr settings)"

text \<open>
  \<open>saveSettings\<close> runs with the lock held, that is, after a file was created in the
  directory.
\<close>

definition saveSettings :: "ClaudeSettings \<Rightarrow> files \<Rightarrow> files" where
  "saveSettings settings s = s\<lparr>settings_json := Some (Json settings)\<rparr>"

subsection \<open>isInstalled, install, remove\<close>

definition isInstalled :: "HookService \<Rightarrow> files \<Rightarrow> bool" where
  "isInstalled svc s =
     (case notify_sh s of
        None \<Rightarrow> False
      | Some script \<Rightarrow>
          (case loadSettings s of
             Inl e \<Rightarrow> False
           | Inr settings \<Rightarrow>
               (case settings_hooks settings of
                  None \<Rightarrow> False
                | Some h \<Rightarrow>
                    (case map_of h ''Notification'' of
                       None \<Rightarrow> False
                     | Some ms \<Rightarrow> list_ex (isOurNotificationHook svc) ms))))"

text \<open>
  The section of \<open>install\<close> and \<open>remove\<close> between taking and releasing the lock. It does not
  return when taking the lock does not.
\<close>

definition locked_update ::
  "(ClaudeSettings \<Rightarrow> ClaudeSettings) \<Rightarrow> nat \<Rightarrow> files \<Rightarrow> ((error + unit) \<times> files) option" where
  "locked_update f pid s =
     (case acquireSettingsLock pid 5000 s of
        None \<Rightarrow> None
      | Some (Inl e, s1) \<Rightarrow> Some (Inl e, s1)
      | Some (Inr u, s1) \<Rightarrow>
          (case loadSettings s1 of
             Inl e \<Rightarrow> Some (Inl e, releaseSettingsLock s1)
           | Inr settings \<Rightarrow>
               Some (Inr (), releaseSettingsLock (saveSettings (f settings) s1))))"

text \<open>\<open>fs.promises.mkdir(hooksDir, {recursive: true})\<close> creates \<open>~/.claude\<close> when it is missing.\<close>

definition mkdir_hooksDir :: "files \<Rightarrow> files" where
  "mkdir_hooksDir s = (if claude_dir s = Missing then s\<lparr>claude_dir := Writable\<rparr> else s)"

definition install ::
  "(rat \<Rightarrow> string) \<Rightarrow> HookService \<Rightarrow> nat \<Rightarrow> jsval \<Rightarrow> files
     \<Rightarrow> ((error + unit) \<times> files) option" where
  "install fmt svc pid config s =
     (let s1 = backupExistingScript (mkdir_hooksDir s)
      in case validateConfig config of
           Inl e \<Rightarrow> Some (Inl e, s1)
         | Inr v \<Rightarrow>
             (case asConfig v of
                None \<Rightarrow> Some (Inl TypeError, s1)
              | Some validatedConfig \<Rightarrow>
                  locked_update (install_settings svc) pid
                    (s1\<lparr>notify_sh := Some (generateScript fmt validatedConfig),
                        stop_notify_sh := Some (generateStopScript fmt validatedConfig),
                        permission_notify_sh :=
                          Some (generatePermissionScript fmt validatedConfig)\<rparr>)))"

definition remove :: "HookService \<Rightarrow> nat \<Rightarrow> files \<Rightarrow> ((error + unit) \<times> files) option" where
  "remove svc pid s =
     (case locked_update (remove_settings svc) pid s of
        None \<Rightarrow> None
      | Some (Inl e, s1) \<Rightarrow> Some (Inl e, s1)
      | Some (Inr u, s1) \<Rightarrow>
          Some (Inr (), s1\<lparr>notify_sh := None, stop_notify_sh := None,
                           permission_notify_sh := None\<rparr>))"

definition regenerateScript :: "(rat \<Rightarrow> string) \<Rightarrow> jsval \<Rightarrow> files \<Rightarrow> (error + unit) \<times> files" where
  "regenerateScript fmt config s =
     (case validateConfig config of
        Inl e \<Rightarrow> (Inl e, s)
      | Inr v \<Rightarrow>
          (case asConfig v of
             None \<Rightarrow> (Inl TypeError, s)
           | Some validatedConfig \<Rightarrow>
               (Inr (), s\<lparr>notify_sh := Some (generateScript fmt validatedConfig),
                          stop_notify_sh := Some (generateStopScript fmt validatedConfig),
                          permission_notify_sh :=
                            Some (generatePermissionScript fmt validatedConfig)\<rparr>)))"


section \<open>ConfigService\<close>

subsection \<open>JSON text\<close>

text \<open>
  The text of the configuration file is modelled by the value it parses to, or is not JSON.
  \<open>json_norm v\<close> is the value that the text \<open>JSON.stringify(v)\<close> denotes: a property whose
  value is undefined is left out, an undefined array element and a number that is not
  finite become null.
\<close>

datatype json_text = JsonText jsval | NotJson

fun json_norm :: "jsval \<Rightarrow> jsval" where
  "json_norm JUndefined = JNull"
| "json_norm JNull = JNull"
| "json_norm (JBool b) = JBool b"
| "json_norm (JNum n) = (case n of Fin x \<Rightarrow> JNum (Fin x) | _ \<Rightarrow> JNull)"
| "json_norm (JStr s) = JStr s"
| "json_norm (JArr xs) = JArr (map json_norm xs)"
| "json_norm (JObj kvs) =
     JObj (map (\<lambda>kv. (fst kv, json_norm (snd kv))) (filter (\<lambda>kv. snd kv \<noteq> JUndefined) kvs))"

text \<open>\<open>JSON.stringify\<close> of undefined is undefined, not a text.\<close>

definition JSON_stringify :: "jsval \<Rightarrow> json_text option" where
  "JSON_stringify v = (if v = JUndefined then None else Some (JsonText (json_norm v)))"

fun JSON_parse :: "json_text \<Rightarrow> error + jsval" where
  "JSON_parse (JsonText v) = Inr v"
| "JSON_parse NotJson = Inl SyntaxError"

subsection \<open>Object spread and computed keys\<close>

text \<open>The own enumerable properties that a spread copies.\<close>

fun own_properties :: "jsval \<Rightarrow> (string \<times> jsval) list" where
  "own_properties (JObj kvs) = kvs"
| "own_properties (JArr xs) = zip (map showNat [0..<length xs]) xs"
| "own_properties (JStr s) = zip (map showNat [0..<length s]) (map (\<lambda>c. JStr [c]) s)"
| "own_properties v = []"

text \<open>\<open>{...a, ...b}\<close>: a later property replaces the value of an earlier one with its key.\<close>

definition spread :: "jsval \<Rightarrow> jsval \<Rightarrow> jsval" where
  "spread a b =
     JObj (fold (\<lambda>kv obj. AList.update (fst kv) (snd kv) obj) (own_properties a @ own_properties b) [])"

text \<open>\<open>a ?? b\<close>.\<close>

definition coalesce :: "jsval \<Rightarrow> jsval \<Rightarrow> jsval" where
  "coalesce a b = (if nullish a then b else a)"

definition join_with :: "string \<Rightarrow> string list \<Rightarrow> string" where
  "join_with sep xs = (case xs of [] \<Rightarrow> [] | y # ys \<Rightarrow> y @ concat (map (\<lambda>z. sep @ z) ys))"

text \<open>ToString, which turns the computed key of \<open>profiles[currentProfile]\<close> into a name.\<close>

fun ToString :: "(rat \<Rightarrow> string) \<Rightarrow> jsval \<Rightarrow> string" where
  "ToString fmt JUndefined = ''undefined''"
| "ToString fmt JNull = ''null''"
| "ToString fmt (JBool b) = Boolean_toString b"
| "ToString fmt (JNum n) = Number_toString fmt n"
| "ToString fmt (JStr s) = s"
| "ToString fmt (JArr xs) =
     join_with '','' (map (\<lambda>x. if nullish x then [] else ToString fmt x) xs)"
| "ToString fmt (JObj kvs) = ''[object Object]''"

subsection \<open>mergeWithDefaults, save and load\<close>

text \<open>\<open>partial.k ?? DEFAULT_CONFIG.k\<close>.\<close>

definition merged_field :: "jsval \<Rightarrow> string \<Rightarrow> error + jsval" where
  "merged_field partial k =
     bindE (getp partial k) (\<lambda>x.
     bindE (getp DEFAULT_CONFIG k) (\<lambda>d. Inr (coalesce x d)))"

text \<open>\<open>{...DEFAULT_CONFIG.notifications.ty, ...partial.notifications?.ty}\<close>.\<close>

definition merged_setting :: "jsval \<Rightarrow> string \<Rightarrow> error + jsval" where
  "merged_setting partial ty =
     bindE (bindE (getp DEFAULT_CONFIG ''notifications'') (\<lambda>dn. getp dn ty)) (\<lambda>d.
     bindE (bindE (getp partial ''notifications'') (\<lambda>n. opt_get n ty)) (\<lambda>p.
       Inr (spread d p)))"

definition mergeWithDefaults :: "jsval \<Rightarrow> error + jsval" where
  "mergeWithDefaults partial =
     bindE (merged_field partial ''enabled'') (\<lambda>e.
     bindE (merged_field partial ''volume'') (\<lambda>v.
     bindE (merged_field partial ''cooldown'') (\<lambda>c.
     bindE (merged_setting partial ''permission_prompt'') (\<lambda>pp.
     bindE (merged_setting partial ''idle_prompt'') (\<lambda>ip.
     bindE (merged_setting partial ''elicitation_dialog'') (\<lambda>ed.
     bindE (merged_setting partial ''response_complete'') (\<lambda>rc.
       Inr (JObj [(''enabled'', e), (''volume'', v), (''cooldown'', c),
                  (''notifications'',
                     JObj [(''permission_prompt'', pp), (''idle_prompt'', ip),
                           (''elicitation_dialog'', ed), (''response_complete'', rc)])]))))))))"

text \<open>
  The state of \<open>ConfigService\<close> is its one file, \<open>notify-config.json\<close>: absent, or a text.
  \<open>writeFile\<close> rejects data that is not a text, which is what \<open>JSON.stringify\<close> returns
  for undefined.
\<close>

type_synonym config_file = "json_text option"

definition save :: "jsval \<Rightarrow> config_file \<Rightarrow> error + config_file" where
  "save config file =
     (case JSON_stringify config of None \<Rightarrow> Inl TypeError | Some content \<Rightarrow> Inr (Some content))"

text \<open>The body of the \<open>try\<close> block of \<open>load\<close>, after the file has been read.\<close>

definition load_parsed :: "(rat \<Rightarrow> string) \<Rightarrow> jsval \<Rightarrow> config_file \<Rightarrow> error + jsval \<times> config_file" where
  "load_parsed fmt parsed file =
     bindE (getp parsed ''profiles'') (\<lambda>profiles.
     bindE (if truthy profiles then getp parsed ''currentProfile'' else Inr profiles) (\<lambda>both.
       if truthy both then
         bindE (getp parsed ''profiles'') (\<lambda>ps.
         bindE (getp parsed ''currentProfile'') (\<lambda>cp.
         bindE (getp ps (ToString fmt cp)) (\<lambda>selected.
         bindE (mergeWithDefaults (if truthy selected then selected else DEFAULT_CONFIG)) (\<lambda>merged.
         bindE (save merged file) (\<lambda>file'.
         bindE (mergeWithDefaults (if truthy selected then selected else DEFAULT_CONFIG)) (\<lambda>result.
           Inr (result, file')))))))
       else
         bindE (mergeWithDefaults parsed) (\<lambda>result. Inr (result, file))))"

definition load :: "(rat \<Rightarrow> string) \<Rightarrow> config_file \<Rightarrow> jsval \<times> config_file" where
  "load fmt file =
     (case file of
        None \<Rightarrow> (DEFAULT_CONFIG, file)
      | Some content \<Rightarrow>
          (case bindE (JSON_parse content) (\<lambda>parsed. load_parsed fmt parsed file) of
             Inl e \<Rightarrow> (DEFAULT_CONFIG, file)
           | Inr r \<Rightarrow> r))"


section \<open>Properties of the specification\<close>

subsection \<open>A validated configuration\<close>

definition field_is :: "(jsval \<Rightarrow> bool) \<Rightarrow> jsval \<Rightarrow> string \<Rightarrow> bool" where
  "field_is P v k = (case field v k of None \<Rightarrow> False | Some x \<Rightarrow> P x)"

text \<open>Every field present and typed, \<open>sound\<close> a string among them.\<close>

definition setting_typed :: "jsval \<Rightarrow> bool" where
  "setting_typed s =
     (field_is is_boolean s ''enabled'' \<and> field_is is_mode s ''mode'' \<and>
      field_is is_string s ''voice'' \<and> field_is is_string s ''text'' \<and>
      field_is is_string s ''sound'')"

definition config_typed :: "jsval \<Rightarrow> bool" where
  "config_typed c =
     (field_is is_boolean c ''enabled'' \<and> field_is is_number c ''volume'' \<and>
      field_is is_number c ''cooldown'' \<and>
      field_is (\<lambda>n. list_all (field_is setting_typed n) notificationTypes) c ''notifications'')"

text \<open>The same with \<open>sound\<close> optional: a string, undefined, or no property at all.\<close>

definition sound_optional :: "jsval \<Rightarrow> bool" where
  "sound_optional s =
     (case field s ''sound'' of None \<Rightarrow> True | Some x \<Rightarrow> is_string x \<or> x = JUndefined)"

definition setting_valid :: "jsval \<Rightarrow> bool" where
  "setting_valid s =
     (field_is is_boolean s ''enabled'' \<and> field_is is_mode s ''mode'' \<and>
      field_is is_string s ''voice'' \<and> field_is is_string s ''text'' \<and>
      sound_optional s)"

definition config_valid :: "jsval \<Rightarrow> bool" where
  "config_valid c =
     (field_is is_boolean c ''enabled'' \<and> field_is is_number c ''volume'' \<and>
      field_is is_number c ''cooldown'' \<and>
      field_is (\<lambda>n. list_all (field_is setting_valid n) notificationTypes) c ''notifications'')"

text \<open>
  What validation makes of an input. \<open>property x k\<close> is the read \<open>x?.k\<close> as a value,
  undefined where \<open>x\<close> is undefined or null. A validated field is the input's value when it
  passes the test of its type and the default's value otherwise; the setting of a kind is
  read from \<open>config.notifications || {}\<close>, its default from the default configuration.
\<close>

definition property :: "jsval \<Rightarrow> string \<Rightarrow> jsval" where
  "property x k = (case opt_get x k of Inl e \<Rightarrow> JUndefined | Inr v \<Rightarrow> v)"

definition checked :: "(jsval \<Rightarrow> bool) \<Rightarrow> jsval \<Rightarrow> jsval \<Rightarrow> jsval" where
  "checked test x d = (if test x then x else d)"

definition input_setting :: "jsval \<Rightarrow> string \<Rightarrow> jsval" where
  "input_setting config ty =
     property (if truthy (property config ''notifications'') then property config ''notifications''
               else JObj []) ty"

definition default_of_kind :: "string \<Rightarrow> jsval" where
  "default_of_kind ty = property (property DEFAULT_CONFIG ''notifications'') ty"

text \<open>A field of the setting of one kind.\<close>

definition kind_field :: "jsval \<Rightarrow> string \<Rightarrow> string \<Rightarrow> jsval option" where
  "kind_field c ty k =
     Option.bind (field c ''notifications'') (\<lambda>n. Option.bind (field n ty) (\<lambda>s. field s k))"

definition top_validated :: "(jsval \<Rightarrow> bool) \<Rightarrow> jsval \<Rightarrow> jsval \<Rightarrow> string \<Rightarrow> bool" where
  "top_validated test config c k =
     (field c k = Some (checked test (property config k) (property DEFAULT_CONFIG k)))"

definition kind_validated ::
  "(jsval \<Rightarrow> bool) \<Rightarrow> jsval \<Rightarrow> jsval \<Rightarrow> string \<Rightarrow> string \<Rightarrow> bool" where
  "kind_validated test config c ty k =
     (kind_field c ty k =
        Some (checked test (property (input_setting config ty) k)
                (property (default_of_kind ty) k)))"

text \<open>
  The result for an input: the default configuration for what is not an object, and
  otherwise every field validated from the input. A \<open>sound\<close> is the input's when that is
  a string and undefined otherwise, the defaults having none.
\<close>

definition validated_from :: "jsval \<Rightarrow> jsval \<Rightarrow> bool" where
  "validated_from config c =
     (if truthy config \<and> typeof config = ''object'' then
        top_validated is_boolean config c ''enabled'' \<and>
        top_validated is_number config c ''volume'' \<and>
        top_validated is_number config c ''cooldown'' \<and>
        list_all
          (\<lambda>ty. kind_validated is_boolean config c ty ''enabled'' \<and>
                kind_validated is_mode config c ty ''mode'' \<and>
                kind_validated is_string config c ty ''voice'' \<and>
                kind_validated is_string config c ty ''text'' \<and>
                kind_validated is_string config c ty ''sound'' \<and>
                property (default_of_kind ty) ''sound'' = JUndefined)
          notificationTypes
      else c = DEFAULT_CONFIG)"

text \<open>An input for the examples: a string for the volume, and one kind partly filled.\<close>

definition partial_config :: jsval where
  "partial_config =
     JObj [(''volume'', JStr ''loud''), (''cooldown'', JNum (Fin 5)),
           (''notifications'',
              JObj [(''idle_prompt'',
                       JObj [(''sound'', JStr ''Ping''), (''voice'', JNum (Fin 3))])])]"

subsection \<open>Sound names and shell literals\<close>

text \<open>The class \<^verbatim>\<open>[A-Za-z0-9 _-]\<close>, with the space as its only blank.\<close>

definition plain_sound_char :: "char \<Rightarrow> bool" where
  "plain_sound_char c =
     (in_range CHR ''a'' CHR ''z'' c \<or> in_range CHR ''A'' CHR ''Z'' c \<or>
      in_range CHR ''0'' CHR ''9'' c \<or> c = CHR '' '' \<or> c = CHR ''-'' \<or> c = CHR ''_'')"

text \<open>Dropping each backslash and keeping the character after it.\<close>

fun strip_backslashes :: "string \<Rightarrow> string" where
  "strip_backslashes [] = []"
| "strip_backslashes [c] = [c]"
| "strip_backslashes (c # d # cs) =
     (if c = backslash then d # strip_backslashes cs else c # strip_backslashes (d # cs))"

text \<open>The command of the talk branch, with the two literals it interpolates.\<close>

definition say_command :: "string \<Rightarrow> string \<Rightarrow> string" where
  \<open>say_command voice_lit text_lit =
     ''say -v "'' @ voice_lit @ ''" -o "$TMPFILE" "'' @ text_lit @ ''"''\<close>


subsection \<open>The head of a generated script\<close>











text \<open>Configurations for the examples: one setting for all four kinds.\<close>

definition uniform_config :: "NotificationSetting \<Rightarrow> ClaudeNotifyConfig" where
  "uniform_config st =
     \<lparr>config_enabled = True, volume = Fin 70, cooldown = Fin 3, notifications = (\<lambda>ty. st)\<rparr>"

text \<open>The examples print integers only, so their formatter of fractions is never read.\<close>

definition no_fractions :: "rat \<Rightarrow> string" where
  "no_fractions x = []"

definition quoted_setting :: NotificationSetting where
  \<open>quoted_setting =
     \<lparr>enabled = True, mode = talk, voice = Some ''Ava'',
      spoken_text = Some ''Say "done" for $1!'', sound_name = None\<rparr>\<close>

definition empty_voice_setting :: NotificationSetting where
  "empty_voice_setting =
     \<lparr>enabled = True, mode = talk, voice = Some [], spoken_text = Some ''Done'',
      sound_name = None\<rparr>"

text \<open>The configuration of the scenario: a volume above and a cooldown below the range.\<close>

definition out_of_range_config :: jsval where
  "out_of_range_config = JObj [(''volume'', JNum (Fin 150)), (''cooldown'', JNum (Fin (- 1)))]"


text \<open>The literals a configuration puts on the \<open>VOLUME\<close> and \<open>COOLDOWN\<close> lines.\<close>

definition volume_literal :: "(rat \<Rightarrow> string) \<Rightarrow> ClaudeNotifyConfig \<Rightarrow> string" where
  "volume_literal fmt config =
     Number_toString fmt (num_div (clampNumber (volume config) (Fin 0) (Fin 100) (Fin 70)) 100)"

definition cooldown_literal :: "(rat \<Rightarrow> string) \<Rightarrow> ClaudeNotifyConfig \<Rightarrow> string" where
  "cooldown_literal fmt config =
     Number_toString fmt (clampNumber (cooldown config) (Fin 0) (Fin 30) (Fin 3))"

subsection \<open>The lock\<close>

text \<open>
  What a run of the loop that started at time \<open>start\<close> in state \<open>s\<close> leaves when it returns:
  only the clock and the lockfile differ from \<open>s\<close>, and a run that was within the timeout
  and one retry interval still is. On success the lockfile is the caller's, written now,
  in a writable directory. The error is the timeout, after more than the timeout has
  passed, with the lockfile that was found; or else it is the error of creating the
  lockfile in a missing or read-only directory, and nothing has changed.
\<close>

definition lock_outcome :: "nat \<Rightarrow> int \<Rightarrow> int \<Rightarrow> files \<Rightarrow> (error + unit) \<times> files \<Rightarrow> bool" where
  "lock_outcome pid t start s r =
     (snd r = s\<lparr>clock := clock (snd r), settings_json_lock := settings_json_lock (snd r)\<rparr> \<and>
      clock s \<le> clock (snd r) \<and>
      (clock s - start \<le> t + retryInterval \<longrightarrow> clock (snd r) - start \<le> t + retryInterval) \<and>
      (case fst r of
         Inr u \<Rightarrow>
           settings_json_lock (snd r)
             = Some (LockFile \<lparr>lock_pid = pid, mtimeMs = clock (snd r)\<rparr>) \<and>
           claude_dir s = Writable
       | Inl e \<Rightarrow>
           if e = Error lock_timeout_message then
             t < clock (snd r) - start \<and> settings_json_lock (snd r) = settings_json_lock s \<and>
             settings_json_lock s \<noteq> None
           else
             snd r = s \<and> settings_json_lock s = None \<and>
             (claude_dir s = Missing \<and> e = ErrnoException ''ENOENT'' \<or>
              claude_dir s = ReadOnly \<and> e = ErrnoException ''EACCES'')))"

text \<open>
  States for the examples: an empty \<open>~/.claude\<close>; a home directory without \<open>~/.claude\<close>; a
  lockfile 30001 ms old; one written just now; the old lockfile in a directory that is not
  writable; and a name at the path of the lockfile that cannot be read.
\<close>

definition no_files :: files where
  "no_files =
     \<lparr>clock = 100000, claude_dir = Writable, settings_json = None, settings_json_lock = None,
      notify_sh = None, notify_sh_backup = None, stop_notify_sh = None,
      permission_notify_sh = None\<rparr>"

definition fresh_home :: files where
  "fresh_home = no_files\<lparr>claude_dir := Missing\<rparr>"

definition stale_lock_state :: files where
  "stale_lock_state =
     no_files\<lparr>settings_json_lock := Some (LockFile \<lparr>lock_pid = 7, mtimeMs = 69999\<rparr>)\<rparr>"

definition held_lock_state :: files where
  "held_lock_state =
     no_files\<lparr>settings_json_lock := Some (LockFile \<lparr>lock_pid = 7, mtimeMs = 100000\<rparr>)\<rparr>"

definition undeletable_lock_state :: files where
  "undeletable_lock_state = stale_lock_state\<lparr>claude_dir := ReadOnly\<rparr>"

definition unreadable_lock_state :: files where
  "unreadable_lock_state = no_files\<lparr>settings_json_lock := Some DanglingLink\<rparr>"

text \<open>The state in which \<open>install\<close> takes the lock.\<close>

definition scripts_written :: "(rat \<Rightarrow> string) \<Rightarrow> ClaudeNotifyConfig \<Rightarrow> files \<Rightarrow> files" where
  "scripts_written fmt c s =
     (backupExistingScript (mkdir_hooksDir s))\<lparr>notify_sh := Some (generateScript fmt c),
        stop_notify_sh := Some (generateStopScript fmt c),
        permission_notify_sh := Some (generatePermissionScript fmt c)\<rparr>"

subsection \<open>The hooks of a settings document\<close>

text \<open>\<open>settings.hooks?.[key]\<close>, and the same with an absent list read as empty.\<close>

definition event_list :: "ClaudeSettings \<Rightarrow> string \<Rightarrow> ClaudeHookMatcher list option" where
  "event_list d k = (case settings_hooks d of None \<Rightarrow> None | Some h \<Rightarrow> map_of h k)"

definition matchers :: "ClaudeSettings \<Rightarrow> string \<Rightarrow> ClaudeHookMatcher list" where
  "matchers d k = (case event_list d k of None \<Rightarrow> [] | Some ms \<Rightarrow> ms)"

text \<open>
  A matcher none of whose entries has one of the three script paths as its command.
\<close>

definition third_party :: "HookService \<Rightarrow> ClaudeHookMatcher \<Rightarrow> bool" where
  "third_party svc m =
     (\<not> isOurNotificationHook svc m \<and> \<not> isOurStopHook svc m \<and> \<not> isOurPermissionHook svc m)"

definition event_keys :: "string list" where
  "event_keys = [''Notification'', ''Stop'', ''PermissionRequest'']"

text \<open>What \<open>remove\<close> leaves under an event key: the matchers kept, or no key when none is.\<close>

definition stripped :: "(ClaudeHookMatcher \<Rightarrow> bool) \<Rightarrow> ClaudeHookMatcher list option
    \<Rightarrow> ClaudeHookMatcher list option" where
  "stripped ours l =
     (case l of
        None \<Rightarrow> None
      | Some ms \<Rightarrow> if filter (\<lambda>m. \<not> ours m) ms = [] then None
                   else Some (filter (\<lambda>m. \<not> ours m) ms))"

text \<open>The document of the scenario: one matcher of another tool under \<open>Notification\<close>.\<close>

definition other_tool_matcher :: ClaudeHookMatcher where
  "other_tool_matcher =
     \<lparr>matcher = ''x'', hooks = Some [\<lparr>type = ''command'', command = ''/other/tool.sh''\<rparr>]\<rparr>"

definition other_tool_settings :: ClaudeSettings where
  "other_tool_settings =
     \<lparr>settings_hooks = Some [(''Notification'', [other_tool_matcher])], settings_rest = []\<rparr>"

definition other_tool_state :: files where
  "other_tool_state = no_files\<lparr>settings_json := Some (Json other_tool_settings)\<rparr>"

definition example_service :: HookService where
  "example_service = new_HookService ''/Users/u''"

subsection \<open>The stored configuration\<close>

definition top_keys :: "string list" where
  "top_keys = [''enabled'', ''volume'', ''cooldown'']"

text \<open>
  The test \<open>parsed.profiles && parsed.currentProfile\<close> of \<open>load\<close>: the document has the
  shape of the old profile format.
\<close>

definition legacy_shape :: "jsval \<Rightarrow> bool" where
  "legacy_shape parsed =
     (case getp parsed ''profiles'' of
        Inl e \<Rightarrow> False
      | Inr p \<Rightarrow> truthy p \<and>
          (case getp parsed ''currentProfile'' of Inl e \<Rightarrow> False | Inr c \<Rightarrow> truthy c))"

text \<open>
  A value that JSON represents exactly: undefined occurs nowhere in it, and every number is
  finite.
\<close>

fun json_value :: "jsval \<Rightarrow> bool" where
  "json_value JUndefined = False"
| "json_value JNull = True"
| "json_value (JBool b) = True"
| "json_value (JNum n) = (case n of Fin x \<Rightarrow> True | _ \<Rightarrow> False)"
| "json_value (JStr s) = True"
| "json_value (JArr xs) = list_all json_value xs"
| "json_value (JObj kvs) = list_all (\<lambda>kv. json_value (snd kv)) kvs"

text \<open>
  Three values for the examples: a configuration whose permission prompt has the property
  \<open>voice\<close> with the value undefined, a document with a string for the volume and null for
  a voice, and a document of the old profile format with a string for the volume.
\<close>

definition undefined_voice_config :: jsval where
  "undefined_voice_config =
     JObj [(''enabled'', JBool True), (''volume'', JNum (Fin 70)), (''cooldown'', JNum (Fin 3)),
           (''notifications'',
              JObj [(''permission_prompt'',
                       JObj [(''enabled'', JBool True), (''mode'', JStr ''sound''),
                             (''voice'', JUndefined), (''sound'', JStr ''Glass'')]),
                    (''idle_prompt'', default_setting ''Done''),
                    (''elicitation_dialog'', default_setting ''Input needed''),
                    (''response_complete'', default_setting ''Response ready'')])]"

definition string_volume_document :: jsval where
  "string_volume_document =
     JObj [(''volume'', JStr ''loud''),
           (''notifications'', JObj [(''idle_prompt'', JObj [(''voice'', JNull)])])]"

definition legacy_document :: jsval where
  "legacy_document =
     JObj [(''profiles'', JObj [(''work'', JObj [])]), (''currentProfile'', JStr ''work''),
           (''volume'', JStr ''loud'')]"


section \<open>Proofs\<close>

subsection \<open>validateConfig\<close>

lemma getp_total: "\<not> nullish x \<Longrightarrow> \<exists>v. getp x k = Inr v"
  by (cases x) (auto simp: nullish_def)

lemma pick_opt:
  assumes d: "getp d k = Inr dv" and u: "\<not> test JUndefined"
  shows "\<exists>r. pick opt_get test x d k = Inr r \<and> (test r \<or> r = dv)"
proof (cases "nullish x")
  case True
  then show ?thesis using d u by (simp add: pick_def opt_get_def bindE_def)
next
  case False
  then obtain v where "getp x k = Inr v" using getp_total by blast
  then show ?thesis using False d by (simp add: pick_def opt_get_def bindE_def)
qed

lemma pick_getp:
  assumes d: "getp d k = Inr dv" and x: "\<not> nullish x"
  shows "\<exists>r. pick getp test x d k = Inr r \<and> (test r \<or> r = dv)"
proof -
  obtain v where "getp x k = Inr v" using getp_total x by blast
  then show ?thesis using d by (simp add: pick_def bindE_def)
qed

lemma default_permission_prompt:
  "bindE (getp DEFAULT_CONFIG ''notifications'') (\<lambda>dn. getp dn ''permission_prompt'')
     = Inr (default_setting ''Permission required'')"
  by (simp add: DEFAULT_CONFIG_def bindE_def)

lemma default_idle_prompt:
  "bindE (getp DEFAULT_CONFIG ''notifications'') (\<lambda>dn. getp dn ''idle_prompt'')
     = Inr (default_setting ''Done'')"
  by (simp add: DEFAULT_CONFIG_def bindE_def)

lemma default_elicitation_dialog:
  "bindE (getp DEFAULT_CONFIG ''notifications'') (\<lambda>dn. getp dn ''elicitation_dialog'')
     = Inr (default_setting ''Input needed'')"
  by (simp add: DEFAULT_CONFIG_def bindE_def)

lemma default_response_complete:
  "bindE (getp DEFAULT_CONFIG ''notifications'') (\<lambda>dn. getp dn ''response_complete'')
     = Inr (default_setting ''Response ready'')"
  by (simp add: DEFAULT_CONFIG_def bindE_def)

lemma notificationTypes_cases:
  "ty \<in> set notificationTypes \<Longrightarrow>
     ty = ''permission_prompt'' \<or> ty = ''idle_prompt'' \<or>
     ty = ''elicitation_dialog'' \<or> ty = ''response_complete''"
  by (simp add: notificationTypes_def)

lemma default_setting_lookup:
  assumes "ty \<in> set notificationTypes"
  shows "\<exists>dt. bindE (getp DEFAULT_CONFIG ''notifications'') (\<lambda>dn. getp dn ty)
           = Inr (default_setting dt)"
  using notificationTypes_cases [OF assms]
proof (elim disjE)
  assume t: "ty = ''permission_prompt''"
  show ?thesis unfolding t default_permission_prompt by blast
next
  assume t: "ty = ''idle_prompt''"
  show ?thesis unfolding t default_idle_prompt by blast
next
  assume t: "ty = ''elicitation_dialog''"
  show ?thesis unfolding t default_elicitation_dialog by blast
next
  assume t: "ty = ''response_complete''"
  show ?thesis unfolding t default_response_complete by blast
qed

lemma validatedSetting_valid:
  "\<exists>s. validatedSetting setting (default_setting txt) = Inr s \<and> setting_valid s"
proof -
  let ?d = "default_setting txt"
  obtain e where e: "pick opt_get is_boolean setting ?d ''enabled'' = Inr e" "is_boolean e"
    using pick_opt [of ?d "''enabled''" "JBool True" is_boolean setting]
    by (auto simp: default_setting_def is_boolean_def)
  obtain m where m: "pick opt_get is_mode setting ?d ''mode'' = Inr m" "is_mode m"
    using pick_opt [of ?d "''mode''" "JStr ''talk''" is_mode setting]
    by (auto simp: default_setting_def is_mode_def)
  obtain v where v: "pick opt_get is_string setting ?d ''voice'' = Inr v" "is_string v"
    using pick_opt [of ?d "''voice''" "JStr ''Ava (Premium)''" is_string setting]
    by (auto simp: default_setting_def is_string_def)
  obtain t where t: "pick opt_get is_string setting ?d ''text'' = Inr t" "is_string t"
    using pick_opt [of ?d "''text''" "JStr txt" is_string setting]
    by (auto simp: default_setting_def is_string_def)
  obtain s where s: "pick opt_get is_string setting ?d ''sound'' = Inr s"
      "is_string s \<or> s = JUndefined"
    using pick_opt [of ?d "''sound''" JUndefined is_string setting]
    by (auto simp: default_setting_def is_string_def)
  show ?thesis
    using e m v t s
    by (simp add: validatedSetting_def bindE_def setting_valid_def field_is_def field_def
        sound_optional_def)
qed

lemma validateLoop_valid:
  assumes "set tys \<subseteq> set notificationTypes" and "\<not> nullish n"
  shows "\<exists>r. validateLoop tys n acc = Inr r \<and>
     (\<forall>k. k \<in> set tys \<longrightarrow> field_is setting_valid (JObj r) k) \<and>
     (\<forall>k. k \<notin> set tys \<longrightarrow> map_of r k = map_of acc k)"
  using assms
proof (induction tys arbitrary: acc)
  case Nil
  then show ?case by simp
next
  case (Cons ty tys)
  obtain setting where g: "getp n ty = Inr setting"
    using getp_total Cons.prems(2) by blast
  obtain dt where d:
    "bindE (getp DEFAULT_CONFIG ''notifications'') (\<lambda>dn. getp dn ty) = Inr (default_setting dt)"
    using default_setting_lookup [of ty] Cons.prems(1) by auto
  obtain s where s: "validatedSetting setting (default_setting dt) = Inr s" "setting_valid s"
    using validatedSetting_valid by blast
  from Cons.prems have "set tys \<subseteq> set notificationTypes" by simp
  from Cons.IH [OF this Cons.prems(2), of "AList.update ty s acc"]
  obtain r where r: "validateLoop tys n (AList.update ty s acc) = Inr r"
     "\<forall>k. k \<in> set tys \<longrightarrow> field_is setting_valid (JObj r) k"
     "\<forall>k. k \<notin> set tys \<longrightarrow> map_of r k = map_of (AList.update ty s acc) k"
    by blast
  have "validateLoop (ty # tys) n acc = Inr r"
    using g d s(1) r(1) by simp
  moreover have "field_is setting_valid (JObj r) k" if "k \<in> set (ty # tys)" for k
  proof (cases "k \<in> set tys")
    case True
    then show ?thesis using r(2) by blast
  next
    case False
    then have "k = ty" using that by simp
    then show ?thesis using r(3) False s(2)
      by (simp add: field_is_def field_def update_conv')
  qed
  moreover have "map_of r k = map_of acc k" if "k \<notin> set (ty # tys)" for k
    using r(3) that by (simp add: update_conv')
  ultimately show ?case by blast
qed

lemma validateConfig_object:
  assumes "truthy config" and "typeof config = ''object''"
  shows "\<exists>c. validateConfig config = Inr c \<and> config_valid c"
proof -
  have nn: "\<not> nullish config" using assms by (cases config) (auto simp: nullish_def)
  obtain n where n: "getp config ''notifications'' = Inr n" using getp_total nn by blast
  let ?n = "if truthy n then n else JObj []"
  have "\<not> nullish ?n" by (cases n) (auto simp: nullish_def)
  from validateLoop_valid [OF subset_refl this, of "[]"]
  obtain r where r: "validateLoop notificationTypes ?n [] = Inr r"
    "\<forall>k. k \<in> set notificationTypes \<longrightarrow> field_is setting_valid (JObj r) k" by blast
  obtain e where e: "pick getp is_boolean config DEFAULT_CONFIG ''enabled'' = Inr e" "is_boolean e"
    using pick_getp [of DEFAULT_CONFIG "''enabled''" "JBool True" config is_boolean] nn
    by (auto simp: DEFAULT_CONFIG_def is_boolean_def)
  obtain v where v: "pick getp is_number config DEFAULT_CONFIG ''volume'' = Inr v" "is_number v"
    using pick_getp [of DEFAULT_CONFIG "''volume''" "JNum (Fin 70)" config is_number] nn
    by (auto simp: DEFAULT_CONFIG_def is_number_def)
  obtain c where c: "pick getp is_number config DEFAULT_CONFIG ''cooldown'' = Inr c" "is_number c"
    using pick_getp [of DEFAULT_CONFIG "''cooldown''" "JNum (Fin 3)" config is_number] nn
    by (auto simp: DEFAULT_CONFIG_def is_number_def)
  have "list_all (field_is setting_valid (JObj r)) notificationTypes"
    using r(2) by (simp add: list_all_iff)
  then show ?thesis
    using assms n r(1) e v c
    by (simp add: validateConfig_def bindE_def config_valid_def field_is_def field_def)
qed

lemma DEFAULT_CONFIG_valid: "config_valid DEFAULT_CONFIG"
  by (simp add: config_valid_def DEFAULT_CONFIG_def field_is_def field_def notificationTypes_def
      default_setting_def setting_valid_def sound_optional_def is_boolean_def is_number_def
      is_mode_def is_string_def)

lemma validateConfig_valid:
  "\<exists>c. validateConfig config = Inr c \<and> config_valid c"
proof (cases "truthy config \<and> typeof config = ''object''")
  case True
  then show ?thesis using validateConfig_object by blast
next
  case False
  then have "validateConfig config = Inr DEFAULT_CONFIG"
    by (auto simp: validateConfig_def)
  then show ?thesis using DEFAULT_CONFIG_valid by simp
qed

text \<open>The same results, with each field as a function of the input.\<close>

lemma opt_get_property: "opt_get x k = Inr (property x k)"
  by (cases x) (simp_all add: property_def opt_get_def nullish_def)

lemma getp_property: "\<not> nullish x \<Longrightarrow> getp x k = Inr (property x k)"
  using opt_get_property [of x k] by (simp add: opt_get_def)

lemma property_nullish: "nullish x \<Longrightarrow> property x k = JUndefined"
  by (simp add: property_def opt_get_def)

lemma pick_opt_checked:
  assumes "\<not> test JUndefined" and "\<not> nullish d"
  shows "pick opt_get test x d k = Inr (checked test (property x k) (property d k))"
proof (cases "nullish x")
  case True
  then show ?thesis using assms
    by (simp add: pick_def opt_get_property bindE_def checked_def property_nullish getp_property)
next
  case False
  then show ?thesis using assms(2)
    by (simp add: pick_def opt_get_property bindE_def checked_def getp_property)
qed

lemma pick_getp_checked:
  assumes "\<not> nullish x" and "\<not> nullish d"
  shows "pick getp test x d k = Inr (checked test (property x k) (property d k))"
  using assms by (simp add: pick_def bindE_def checked_def getp_property)

lemma validatedSetting_checked:
  assumes "\<not> nullish d"
  shows "validatedSetting x d =
     Inr (JObj [(''enabled'', checked is_boolean (property x ''enabled'') (property d ''enabled'')),
                (''mode'', checked is_mode (property x ''mode'') (property d ''mode'')),
                (''voice'', checked is_string (property x ''voice'') (property d ''voice'')),
                (''text'', checked is_string (property x ''text'') (property d ''text'')),
                (''sound'', checked is_string (property x ''sound'') (property d ''sound''))])"
proof -
  have u: "\<not> is_boolean JUndefined" "\<not> is_mode JUndefined" "\<not> is_string JUndefined"
    by (simp_all add: is_boolean_def is_mode_def is_string_def)
  show ?thesis
    unfolding validatedSetting_def
    by (simp add: pick_opt_checked [of is_boolean, OF u(1) assms]
        pick_opt_checked [of is_mode, OF u(2) assms]
        pick_opt_checked [of is_string, OF u(3) assms] bindE_def)
qed

lemma default_of_kind_lookup:
  "bindE (getp DEFAULT_CONFIG ''notifications'') (\<lambda>dn. getp dn ty) = Inr (default_of_kind ty)"
proof -
  have "\<not> nullish DEFAULT_CONFIG" "\<not> nullish (property DEFAULT_CONFIG ''notifications'')"
    by (simp_all add: DEFAULT_CONFIG_def nullish_def property_def opt_get_def)
  then show ?thesis by (simp add: getp_property bindE_def default_of_kind_def)
qed

lemma default_of_kind_object:
  assumes "ty \<in> set notificationTypes"
  shows "\<exists>dt. default_of_kind ty = default_setting dt"
  using default_setting_lookup [OF assms] by (simp add: default_of_kind_lookup)

lemma validateLoop_checked:
  assumes "set tys \<subseteq> set notificationTypes" and "\<not> nullish n"
  shows "\<exists>r. validateLoop tys n acc = Inr r \<and>
     (\<forall>k. k \<in> set tys \<longrightarrow>
        validatedSetting (property n k) (default_of_kind k) = Inr (the (map_of r k)) \<and>
        map_of r k \<noteq> None) \<and>
     (\<forall>k. k \<notin> set tys \<longrightarrow> map_of r k = map_of acc k)"
  using assms
proof (induction tys arbitrary: acc)
  case Nil
  then show ?case by simp
next
  case (Cons ty tys)
  obtain dt where dt: "default_of_kind ty = default_setting dt"
    using default_of_kind_object [of ty] Cons.prems(1) by auto
  have "\<not> nullish (default_of_kind ty)" unfolding dt by (simp add: default_setting_def nullish_def)
  then obtain s where s: "validatedSetting (property n ty) (default_of_kind ty) = Inr s"
    using validatedSetting_checked by blast
  from Cons.prems have "set tys \<subseteq> set notificationTypes" by simp
  from Cons.IH [OF this Cons.prems(2), of "AList.update ty s acc"]
  obtain r where r: "validateLoop tys n (AList.update ty s acc) = Inr r"
     "\<forall>k. k \<in> set tys \<longrightarrow>
        validatedSetting (property n k) (default_of_kind k) = Inr (the (map_of r k)) \<and>
        map_of r k \<noteq> None"
     "\<forall>k. k \<notin> set tys \<longrightarrow> map_of r k = map_of (AList.update ty s acc) k"
    by blast
  have "validateLoop (ty # tys) n acc = Inr r"
    using s r(1) Cons.prems(2) by (simp add: getp_property default_of_kind_lookup)
  moreover have "validatedSetting (property n k) (default_of_kind k) = Inr (the (map_of r k)) \<and>
        map_of r k \<noteq> None" if "k \<in> set (ty # tys)" for k
  proof (cases "k \<in> set tys")
    case True
    then show ?thesis using r(2) by blast
  next
    case False
    then have "k = ty" using that by simp
    then show ?thesis using r(3) False s by (simp add: update_conv')
  qed
  moreover have "map_of r k = map_of acc k" if "k \<notin> set (ty # tys)" for k
    using r(3) that by (simp add: update_conv')
  ultimately show ?case by blast
qed

lemma kind_validated_fields:
  assumes "field c ''notifications'' = Some (JObj r)"
    and "validatedSetting (property n ty) (default_of_kind ty) = Inr (the (map_of r ty))"
    and "map_of r ty \<noteq> None" and "ty \<in> set notificationTypes"
    and "input_setting config ty = property n ty"
  shows "kind_validated is_boolean config c ty ''enabled'' \<and>
         kind_validated is_mode config c ty ''mode'' \<and>
         kind_validated is_string config c ty ''voice'' \<and>
         kind_validated is_string config c ty ''text'' \<and>
         kind_validated is_string config c ty ''sound'' \<and>
         property (default_of_kind ty) ''sound'' = JUndefined"
proof -
  obtain dt where dt: "default_of_kind ty = default_setting dt"
    using default_of_kind_object [OF assms(4)] by blast
  have nn: "\<not> nullish (default_of_kind ty)"
    unfolding dt by (simp add: default_setting_def nullish_def)
  obtain s where s: "map_of r ty = Some s" using assms(3) by blast
  have "s = JObj [(''enabled'', checked is_boolean (property (property n ty) ''enabled'')
                      (property (default_of_kind ty) ''enabled'')),
                (''mode'', checked is_mode (property (property n ty) ''mode'')
                      (property (default_of_kind ty) ''mode'')),
                (''voice'', checked is_string (property (property n ty) ''voice'')
                      (property (default_of_kind ty) ''voice'')),
                (''text'', checked is_string (property (property n ty) ''text'')
                      (property (default_of_kind ty) ''text'')),
                (''sound'', checked is_string (property (property n ty) ''sound'')
                      (property (default_of_kind ty) ''sound''))]"
    using assms(2) s by (simp add: validatedSetting_checked [OF nn])
  moreover have "property (default_of_kind ty) ''sound'' = JUndefined"
    unfolding dt by (simp add: default_setting_def property_def opt_get_def nullish_def)
  ultimately show ?thesis
    using assms(1,5) s by (simp add: kind_validated_def kind_field_def field_def)
qed

lemma validateConfig_object_checked:
  assumes "truthy config" and "typeof config = ''object''"
  shows "\<exists>c. validateConfig config = Inr c \<and> validated_from config c"
proof -
  have nn: "\<not> nullish config" using assms by (cases config) (auto simp: nullish_def)
  have nd: "\<not> nullish DEFAULT_CONFIG" by (simp add: DEFAULT_CONFIG_def nullish_def)
  let ?p = "property config ''notifications''"
  let ?n = "if truthy ?p then ?p else JObj []"
  have n: "\<not> nullish ?n" by (cases ?p) (auto simp: nullish_def)
  from validateLoop_checked [OF subset_refl n, of "[]"]
  obtain r where r: "validateLoop notificationTypes ?n [] = Inr r"
    "\<forall>k. k \<in> set notificationTypes \<longrightarrow>
        validatedSetting (property ?n k) (default_of_kind k) = Inr (the (map_of r k)) \<and>
        map_of r k \<noteq> None" by blast
  let ?c = "JObj [(''enabled'', checked is_boolean (property config ''enabled'')
                     (property DEFAULT_CONFIG ''enabled'')),
                  (''volume'', checked is_number (property config ''volume'')
                     (property DEFAULT_CONFIG ''volume'')),
                  (''cooldown'', checked is_number (property config ''cooldown'')
                     (property DEFAULT_CONFIG ''cooldown'')),
                  (''notifications'', JObj r)]"
  have v: "validateConfig config = Inr ?c"
    using assms r(1)
    by (simp add: validateConfig_def getp_property [OF nn] bindE_def
        pick_getp_checked [OF nn nd])
  have f: "field ?c ''notifications'' = Some (JObj r)" by (simp add: field_def)
  have "kind_validated is_boolean config ?c ty ''enabled'' \<and>
         kind_validated is_mode config ?c ty ''mode'' \<and>
         kind_validated is_string config ?c ty ''voice'' \<and>
         kind_validated is_string config ?c ty ''text'' \<and>
         kind_validated is_string config ?c ty ''sound'' \<and>
         property (default_of_kind ty) ''sound'' = JUndefined"
    if "ty \<in> set notificationTypes" for ty
    using kind_validated_fields [OF f _ _ that, of ?n config] r(2) that
    by (simp add: input_setting_def)
  then have "list_all
          (\<lambda>ty. kind_validated is_boolean config ?c ty ''enabled'' \<and>
                kind_validated is_mode config ?c ty ''mode'' \<and>
                kind_validated is_string config ?c ty ''voice'' \<and>
                kind_validated is_string config ?c ty ''text'' \<and>
                kind_validated is_string config ?c ty ''sound'' \<and>
                property (default_of_kind ty) ''sound'' = JUndefined)
          notificationTypes"
    unfolding list_all_iff by blast
  moreover have "top_validated is_boolean config ?c ''enabled''"
    "top_validated is_number config ?c ''volume''" "top_validated is_number config ?c ''cooldown''"
    by (simp_all add: top_validated_def field_def)
  ultimately have "validated_from config ?c"
    using assms unfolding validated_from_def by simp
  then show ?thesis using v by blast
qed

lemma valid_setting_decodes:
  assumes "field_is setting_valid n k"
  shows "\<exists>st. asSetting (field n k) = Some st"
proof -
  from assms obtain s where s: "field n k = Some s" "setting_valid s"
    by (auto simp: field_is_def split: option.splits)
  from s(2) obtain e where e: "field s ''enabled'' = Some (JBool e)"
    by (auto simp: setting_valid_def field_is_def is_boolean_def split: option.splits
        elim: typeof.elims)
  from s(2) obtain m where m: "asMode (field s ''mode'') = Some m"
    by (auto simp: setting_valid_def field_is_def is_mode_def split: option.splits)
  from s(2) obtain v where v: "field s ''voice'' = Some (JStr v)"
    by (auto simp: setting_valid_def field_is_def is_string_def split: option.splits
        elim: typeof.elims)
  from s(2) obtain t where t: "field s ''text'' = Some (JStr t)"
    by (auto simp: setting_valid_def field_is_def is_string_def split: option.splits
        elim: typeof.elims)
  from s(2) obtain so where so: "asOptionalString (field s ''sound'') = Some so"
    by (auto simp: setting_valid_def sound_optional_def is_string_def split: option.splits
        elim: typeof.elims)
  show ?thesis using s(1) e m v t so by (simp add: asSetting_def)
qed

lemma valid_config_decodes:
  assumes "config_valid c"
  shows "\<exists>cfg. asConfig c = Some cfg"
proof -
  from assms obtain e where e: "field c ''enabled'' = Some (JBool e)"
    by (auto simp: config_valid_def field_is_def is_boolean_def split: option.splits
        elim: typeof.elims)
  from assms obtain v where v: "field c ''volume'' = Some (JNum v)"
    by (auto simp: config_valid_def field_is_def is_number_def split: option.splits
        elim: typeof.elims)
  from assms obtain cd where cd: "field c ''cooldown'' = Some (JNum cd)"
    by (auto simp: config_valid_def field_is_def is_number_def split: option.splits
        elim: typeof.elims)
  from assms obtain n where n: "field c ''notifications'' = Some n"
    "list_all (field_is setting_valid n) notificationTypes"
    by (auto simp: config_valid_def field_is_def split: option.splits)
  from n(2) have k: "field_is setting_valid n ''permission_prompt''"
    "field_is setting_valid n ''idle_prompt''" "field_is setting_valid n ''elicitation_dialog''"
    "field_is setting_valid n ''response_complete''"
    by (simp_all add: notificationTypes_def)
  obtain pp where pp: "asSetting (field n ''permission_prompt'') = Some pp"
    using k(1) valid_setting_decodes by blast
  obtain ip where ip: "asSetting (field n ''idle_prompt'') = Some ip"
    using k(2) valid_setting_decodes by blast
  obtain ed where ed: "asSetting (field n ''elicitation_dialog'') = Some ed"
    using k(3) valid_setting_decodes by blast
  obtain rc where rc: "asSetting (field n ''response_complete'') = Some rc"
    using k(4) valid_setting_decodes by blast
  show ?thesis using e v cd n(1) pp ip ed rc by (simp add: asConfig_def)
qed


text \<open>
  C1, as amended. For every input value \<open>validateConfig\<close> returns, without raising, a
  configuration in which \<open>enabled\<close> is a boolean, \<open>volume\<close> and \<open>cooldown\<close> are numbers,
  and each of the four kinds has a boolean \<open>enabled\<close>, a \<open>mode\<close> that is \<open>talk\<close> or
  \<open>sound\<close>, and strings \<open>voice\<close> and \<open>text\<close>; \<open>sound\<close> is a string or undefined. For an
  input that is not an object the result is the default configuration, whose kinds have no
  \<open>sound\<close>. For an object, every field is the input's value when that has the type asked
  for, and the default's value otherwise; so a \<open>sound\<close> is the input's when that is a
  string, and undefined otherwise, since the default configuration has no sound to
  substitute.
\<close>

theorem validateConfig_total_valid:
  "\<exists>c. validateConfig config = Inr c \<and> config_valid c \<and> validated_from config c \<and>
       list_all (\<lambda>ty. kind_field DEFAULT_CONFIG ty ''sound'' = None) notificationTypes"
proof -
  have d: "list_all (\<lambda>ty. kind_field DEFAULT_CONFIG ty ''sound'' = None) notificationTypes"
    by (simp add: notificationTypes_def kind_field_def field_def DEFAULT_CONFIG_def
        default_setting_def)
  show ?thesis
  proof (cases "truthy config \<and> typeof config = ''object''")
    case True
    then obtain c where c: "validateConfig config = Inr c" "validated_from config c"
      using validateConfig_object_checked by blast
    moreover obtain c' where "validateConfig config = Inr c'" "config_valid c'"
      using validateConfig_object True by blast
    ultimately show ?thesis using d by auto
  next
    case False
    then have "validateConfig config = Inr DEFAULT_CONFIG"
      by (auto simp: validateConfig_def)
    moreover have "config_valid DEFAULT_CONFIG" by (rule DEFAULT_CONFIG_valid)
    moreover have "validated_from config DEFAULT_CONFIG"
      using False by (auto simp: validated_from_def)
    ultimately show ?thesis using d by blast
  qed
qed

text \<open>
  The theorem at an object with a string for the volume and a number for one voice: the
  volume and the voice are the defaults, the cooldown and the sound of that kind are the
  input's, and the sound of another kind is undefined.
\<close>

theorem validateConfig_total_valid_witness:
  "\<exists>c. validateConfig partial_config = Inr c \<and> config_valid c \<and>
       field c ''volume'' = Some (JNum (Fin 70)) \<and>
       field c ''cooldown'' = Some (JNum (Fin 5)) \<and>
       kind_field c ''idle_prompt'' ''sound'' = Some (JStr ''Ping'') \<and>
       kind_field c ''idle_prompt'' ''voice'' = Some (JStr ''Ava (Premium)'') \<and>
       kind_field c ''permission_prompt'' ''sound'' = Some JUndefined"
  using validateConfig_total_valid [of partial_config]
  by (auto simp: validated_from_def partial_config_def top_validated_def kind_validated_def
      notificationTypes_def checked_def property_def opt_get_def nullish_def input_setting_def
      default_of_kind_def DEFAULT_CONFIG_def default_setting_def is_number_def is_string_def)

text \<open>
  C1 as stated fails: for the input \<open>null\<close> the result is the default configuration,
  whose kinds have no \<open>sound\<close>, and for the empty object every \<open>sound\<close> is undefined.
\<close>

theorem validateConfig_sound_counterexample:
  "validateConfig JNull = Inr DEFAULT_CONFIG \<and> \<not> config_typed DEFAULT_CONFIG"
  by (simp add: validateConfig_def config_typed_def DEFAULT_CONFIG_def field_is_def field_def
      notificationTypes_def default_setting_def setting_typed_def)


subsection \<open>sanitizeSoundName and escapeForBash\<close>

lemma replace_class_filter: "replace_class (\<lambda>c. \<not> P c) (\<lambda>c. []) s = filter P s"
  by (induction s) (simp_all add: replace_class_def)

lemma sanitizeSoundName_eq:
  "sanitizeSoundName name = (if filter sound_char name = [] then ''Glass'' else filter sound_char name)"
  by (simp add: sanitizeSoundName_def replace_class_filter Let_def)

lemma Glass_sound_chars: "list_all sound_char ''Glass''"
  by (simp add: sound_char_def in_range_def code_unit_def)

lemma sound_char_split: "sound_char c = (plain_sound_char c \<or> js_whitespace c)"
  by (auto simp: sound_char_def plain_sound_char_def js_whitespace_def code_unit_def)

text \<open>
  C2, as amended. For every input string, both copies of \<open>sanitizeSoundName\<close> return a
  string of characters of the class the regular expression keeps: letters, digits, the
  whitespace characters of \<^verbatim>\<open>\s\<close>, hyphen and underscore. The result is the input with
  every other character removed, and is \<open>Glass\<close> when nothing remains.
\<close>

theorem sanitizeSoundName_keeps_class:
  "list_all sound_char (sanitizeSoundName name) \<and>
   sanitizeSoundName name =
     (if filter sound_char name = [] then ''Glass'' else filter sound_char name) \<and>
   SoundService_sanitizeSoundName name = sanitizeSoundName name \<and>
   (\<forall>c. sound_char c = (plain_sound_char c \<or> js_whitespace c))"
proof -
  have "list_all sound_char (sanitizeSoundName name)"
    using Glass_sound_chars by (simp add: sanitizeSoundName_eq list_all_iff)
  moreover have "SoundService_sanitizeSoundName name = sanitizeSoundName name"
    by (simp add: SoundService_sanitizeSoundName_def sanitizeSoundName_def)
  ultimately show ?thesis using sanitizeSoundName_eq sound_char_split by blast
qed

text \<open>
  The theorem at two inputs: a name with a path in front, and one with no kept character.
\<close>

theorem sanitizeSoundName_keeps_class_witness:
  "sanitizeSoundName ''../Ping!'' = ''Ping'' \<and> list_all sound_char (sanitizeSoundName ''../Ping!'') \<and>
   sanitizeSoundName ''../!'' = ''Glass''"
  using sanitizeSoundName_keeps_class [of "''../Ping!''"] sanitizeSoundName_keeps_class [of "''../!''"]
  by (simp add: sound_char_def in_range_def code_unit_def js_whitespace_def)

text \<open>
  C2 as stated fails: a tab is whitespace, so it is kept, and it is not one of
  \<^verbatim>\<open>[A-Za-z0-9 _-]\<close>.
\<close>

theorem sanitizeSoundName_tab_counterexample:
  "sanitizeSoundName [CHR 0x09] = [CHR 0x09] \<and>
   \<not> list_all plain_sound_char (sanitizeSoundName [CHR 0x09])"
  by (simp add: sanitizeSoundName_def replace_class_def sound_char_def plain_sound_char_def
      in_range_def code_unit_def js_whitespace_def)

lemma escapeForBash_Nil: "escapeForBash [] = []"
  by (simp add: escapeForBash_def replace_class_def)

lemma escapeForBash_Cons:
  "escapeForBash (c # s) =
     (if bash_special c then backslash # c # escapeForBash s else c # escapeForBash s)"
  by (simp add: escapeForBash_def replace_class_def)

lemma backslash_special: "bash_special backslash"
  by (simp add: bash_special_def)

lemma strip_escape: "strip_backslashes (escapeForBash s) = s"
proof (induction s)
  case Nil
  then show ?case by (simp add: escapeForBash_Nil)
next
  case (Cons c s)
  show ?case
  proof (cases "bash_special c")
    case True
    then show ?thesis using Cons by (simp add: escapeForBash_Cons)
  next
    case False
    then have nb: "c \<noteq> backslash" using backslash_special by auto
    show ?thesis
    proof (cases "escapeForBash s")
      case Nil
      then show ?thesis using False Cons by (simp add: escapeForBash_Cons)
    next
      case (Cons d ds)
      then show ?thesis using False nb Cons.IH by (simp add: escapeForBash_Cons)
    qed
  qed
qed

lemma length_escape: "length (escapeForBash s) = length s + length (filter bash_special s)"
  by (induction s) (simp_all add: escapeForBash_Nil escapeForBash_Cons)


subsection \<open>The generated scripts\<close>

lemma str_includes_iff: "str_includes p s = (\<exists>pre post. s = pre @ p @ post)"
proof (induction s)
  case Nil
  then show ?case by simp
next
  case (Cons c cs)
  show ?case
  proof
    assume "str_includes p (c # cs)"
    then consider "prefix p (c # cs)" | "str_includes p cs" by auto
    then show "\<exists>pre post. c # cs = pre @ p @ post"
    proof cases
      case 1
      then obtain post where "c # cs = p @ post" by (auto simp: prefix_def)
      then have "c # cs = [] @ p @ post" by simp
      then show ?thesis by blast
    next
      case 2
      then obtain pre post where "cs = pre @ p @ post" using Cons.IH by blast
      then have "c # cs = (c # pre) @ p @ post" by simp
      then show ?thesis by blast
    qed
  next
    assume "\<exists>pre post. c # cs = pre @ p @ post"
    then obtain pre post where e: "c # cs = pre @ p @ post" by blast
    show "str_includes p (c # cs)"
    proof (cases pre)
      case Nil
      then have "prefix p (c # cs)" using e by (simp add: prefix_def)
      then show ?thesis by simp
    next
      case (Cons a pre')
      then have "cs = pre' @ p @ post" using e by simp
      then have "str_includes p cs" using Cons.IH by blast
      then show ?thesis by simp
    qed
  qed
qed

lemma str_includesI: "s = pre @ p @ post \<Longrightarrow> str_includes p s"
  using str_includes_iff by blast

lemma str_includes_trans:
  assumes "str_includes p q" and "str_includes q s"
  shows "str_includes p s"
proof -
  from assms(1) obtain a b where q: "q = a @ p @ b" unfolding str_includes_iff by blast
  from assms(2) obtain c d where s: "s = c @ q @ d" unfolding str_includes_iff by blast
  have "s = (c @ a) @ p @ (b @ d)" unfolding s q by simp
  then show ?thesis by (rule str_includesI)
qed

lemma script_lines_append: "script_lines (xs @ ys) = script_lines xs @ script_lines ys"
  by (simp add: script_lines_def)

lemma script_lines_Cons: "script_lines (x # xs) = x @ CHR 0x0A # script_lines xs"
  by (simp add: script_lines_def)

lemma script_lines_Nil: "script_lines [] = []"
  by (simp add: script_lines_def)


text \<open>The talk branch carries the \<open>say\<close> command.\<close>

lemma talk_lines_say:
  "str_includes (say_command v t) (script_lines (talk_lines indent tmp v t))"
proof -
  have "script_lines (talk_lines indent tmp v t) =
      (indent @ ''('' @ [CHR 0x0A] @ indent @ ''    TMPFILE=\"'' @ tmp @ ''\"'' @ [CHR 0x0A] @ indent @ ''    '')
      @ say_command v t
      @ (CHR 0x0A # script_lines [indent @ ''    afplay -v $VOLUME \"$TMPFILE\"'',
            indent @ ''    rm -f \"$TMPFILE\" 2>/dev/null'', indent @ '') &''])"
    by (simp add: talk_lines_def say_command_def script_lines_Cons script_lines_Nil)
  then show ?thesis by (rule str_includesI)
qed

lemma notify_case_say:
  assumes "enabled st" "mode st = talk"
  shows "str_includes
           (say_command (escapeForBash (or_default (voice st) ''Ava''))
              (escapeForBash (or_default (spoken_text st)
                 (replace_class (\<lambda>c. c = CHR ''_'') (\<lambda>c. '' '') (type_name ty)))))
           (notify_case ty st)"
proof -
  let ?v = "escapeForBash (or_default (voice st) ''Ava'')"
  let ?t = "escapeForBash (or_default (spoken_text st)
                 (replace_class (\<lambda>c. c = CHR ''_'') (\<lambda>c. '' '') (type_name ty)))"
  have "notify_case ty st =
     script_lines [''    '' @ type_name ty @ '')'']
     @ script_lines (talk_lines ''        '' ''/tmp/claude-notify-$$.aiff'' ?v ?t)
     @ script_lines [''        ;;'']"
    using assms
    by (simp add: notify_case_def Let_def script_lines_append script_lines_Cons script_lines_Nil)
  then have "str_includes (script_lines (talk_lines ''        '' ''/tmp/claude-notify-$$.aiff'' ?v ?t))
      (notify_case ty st)" by (rule str_includesI)
  with talk_lines_say show ?thesis by (rule str_includes_trans)
qed




lemma generatePermissionScript_say:
  assumes "mode (notifications config permission_prompt) = talk"
  shows "str_includes
     (say_command (escapeForBash (or_default (voice (notifications config permission_prompt)) ''Ava''))
        (escapeForBash (or_default (spoken_text (notifications config permission_prompt))
           ''Permission required'')))
     (generatePermissionScript fmt config)"
proof -
  let ?st = "notifications config permission_prompt"
  let ?v = "escapeForBash (or_default (voice ?st) ''Ava'')"
  let ?t = "escapeForBash (or_default (spoken_text ?st) ''Permission required'')"
  have "\<exists>pre post. generatePermissionScript fmt config =
     pre @ script_lines (talk_lines [] ''/tmp/claude-notify-permission-$$.aiff'' ?v ?t) @ post"
    unfolding generatePermissionScript_def Let_def
    by (simp only: assms if_True HOL.simp_thms) (rule exI, rule exI, rule refl)
  then obtain pre post where "generatePermissionScript fmt config =
     pre @ script_lines (talk_lines [] ''/tmp/claude-notify-permission-$$.aiff'' ?v ?t) @ post"
    by blast
  then have "str_includes (script_lines (talk_lines [] ''/tmp/claude-notify-permission-$$.aiff'' ?v ?t))
     (generatePermissionScript fmt config)" by (rule str_includesI)
  with talk_lines_say show ?thesis by (rule str_includes_trans)
qed

lemma generateStopScript_say:
  assumes "mode (notifications config response_complete) = talk"
  shows "str_includes
     (say_command (escapeForBash (or_default (voice (notifications config response_complete)) ''Ava''))
        (escapeForBash (or_default (spoken_text (notifications config response_complete))
           ''Response ready'')))
     (generateStopScript fmt config)"
proof -
  let ?st = "notifications config response_complete"
  let ?v = "escapeForBash (or_default (voice ?st) ''Ava'')"
  let ?t = "escapeForBash (or_default (spoken_text ?st) ''Response ready'')"
  have "\<exists>pre post. generateStopScript fmt config =
     pre @ script_lines (talk_lines [] ''/tmp/claude-notify-stop-$$.aiff'' ?v ?t) @ post"
    unfolding generateStopScript_def Let_def
    by (simp only: assms if_True HOL.simp_thms) (rule exI, rule exI, rule refl)
  then obtain pre post where "generateStopScript fmt config =
     pre @ script_lines (talk_lines [] ''/tmp/claude-notify-stop-$$.aiff'' ?v ?t) @ post"
    by blast
  then have "str_includes (script_lines (talk_lines [] ''/tmp/claude-notify-stop-$$.aiff'' ?v ?t))
     (generateStopScript fmt config)" by (rule str_includesI)
  with talk_lines_say show ?thesis by (rule str_includes_trans)
qed

lemma Number_toString_1: "Number_toString fmt (Fin 1) = ''1''"
  by (simp add: Number_toString_def showNat.simps digit_def)

lemma Number_toString_0: "Number_toString fmt (Fin 0) = ''0''"
  by (simp add: Number_toString_def showNat.simps digit_def)

lemma clamp_150: "num_div (clampNumber (Fin 150) (Fin 0) (Fin 100) (Fin 70)) 100 = Fin 1"
  by (simp add: clampNumber_def Math_max_def Math_min_def)

lemma clamp_minus_1: "clampNumber (Fin (- 1)) (Fin 0) (Fin 30) (Fin 3) = Fin 0"
  by (simp add: clampNumber_def Math_max_def Math_min_def)




lemma literals_out_of_range:
  "volume_literal fmt (config\<lparr>volume := Fin 150, cooldown := Fin (- 1)\<rparr>) = ''1''"
  "cooldown_literal fmt (config\<lparr>volume := Fin 150, cooldown := Fin (- 1)\<rparr>) = ''0''"
  by (simp_all add: volume_literal_def cooldown_literal_def clamp_150 clamp_minus_1
      Number_toString_1 Number_toString_0)































text \<open>
  Two examples of the literals of the \<open>say\<close> command: a text with a double quote, a dollar
  and an exclamation mark is interpolated with a backslash before each of them; an empty
  voice is replaced by \<open>Ava\<close> before it is escaped.
\<close>

lemma escape_quoted:
  \<open>escapeForBash ''Say "done" for $1!'' =
     ''Say '' @ [backslash] @ ''"done'' @ [backslash] @ ''" for '' @ [backslash] @ ''$1''
       @ [backslash] @ ''!''\<close>
  by (simp add: escapeForBash_def replace_class_def bash_special_def backslash_def)

lemma quoted_text_interpolated:
  \<open>str_includes
     (say_command ''Ava''
        (''Say '' @ [backslash] @ ''"done'' @ [backslash] @ ''" for '' @ [backslash] @ ''$1''
           @ [backslash] @ ''!''))
     (generateStopScript no_fractions (uniform_config quoted_setting))\<close>
proof -
  have e: "escapeForBash ''Ava'' = ''Ava''"
    by (simp add: escapeForBash_def replace_class_def bash_special_def backslash_def)
  have "mode (notifications (uniform_config quoted_setting) response_complete) = talk"
    by (simp add: uniform_config_def quoted_setting_def)
  from generateStopScript_say [OF this, of no_fractions] show ?thesis
    using e escape_quoted by (simp add: uniform_config_def quoted_setting_def)
qed

lemma empty_voice_fallback:
  \<open>voice empty_voice_setting = Some [] \<and> mode empty_voice_setting = talk \<and>
   escapeForBash [] = [] \<and>
   str_includes (say_command ''Ava'' ''Done'')
     (generateStopScript no_fractions (uniform_config empty_voice_setting)) \<and>
   \<not> str_includes (say_command (escapeForBash []) (escapeForBash ''Done''))
     (generateStopScript no_fractions (uniform_config empty_voice_setting))\<close>
  by code_simp




subsection \<open>The settings lock\<close>

lemma acquire_free:
  "settings_json_lock s = None \<Longrightarrow> claude_dir s = Writable \<Longrightarrow>
   acquireLoop pid t start s =
     Some (Inr (), s\<lparr>settings_json_lock :=
                       Some (LockFile \<lparr>lock_pid = pid, mtimeMs = clock s\<rparr>)\<rparr>)"
  by (subst acquireLoop.simps) (simp add: create_lockfile_def)

lemma acquire_rethrow:
  "settings_json_lock s = None \<Longrightarrow> claude_dir s \<noteq> Writable \<Longrightarrow>
   acquireLoop pid t start s =
     Some (Inl (ErrnoException (if claude_dir s = Missing then ''ENOENT'' else ''EACCES'')), s)"
  by (subst acquireLoop.simps) (cases "claude_dir s"; simp add: create_lockfile_def)

lemma acquire_stale:
  assumes "settings_json_lock s = Some (LockFile l)" and "clock s - mtimeMs l > 30000"
    and "claude_dir s = Writable"
  shows "acquireLoop pid t start s =
     Some (Inr (), s\<lparr>settings_json_lock :=
                       Some (LockFile \<lparr>lock_pid = pid, mtimeMs = clock s\<rparr>)\<rparr>)"
proof -
  have "acquireLoop pid t start s = acquireLoop pid t start (s\<lparr>settings_json_lock := None\<rparr>)"
    using assms
    by (subst acquireLoop.simps)
       (simp add: create_lockfile_def stat_lockfile_def unlink_lockfile_def)
  then show ?thesis using assms(3) by (simp add: acquire_free)
qed

text \<open>Induction over the rounds of a call that returns.\<close>

lemmas acquireLoop_induct = acquireLoop.raw_induct [rotated -1, consumes 1, case_names round]

text \<open>What a call that returns has done, from any state.\<close>

lemma acquireLoop_returns:
  assumes "acquireLoop pid t start s = Some r"
  shows "lock_outcome pid t start s r"
  using assms
proof (induction pid t start s r rule: acquireLoop_induct)
  case (round f pid t start s r)
  show ?case
  proof (cases "settings_json_lock s")
    case None
    then show ?thesis using round.hyps
      by (cases "claude_dir s")
         (auto simp: create_lockfile_def lock_outcome_def lock_timeout_message_def)
  next
    case (Some entry)
    show ?thesis
    proof (cases entry)
      case DanglingLink
      then have "f pid t start s = Some r" using Some round.hyps
        by (simp add: create_lockfile_def stat_lockfile_def)
      then show ?thesis by (rule round.IH)
    next
      case (LockFile l)
      show ?thesis
      proof (cases "clock s - mtimeMs l > 30000")
        case stale: True
        show ?thesis
        proof (cases "claude_dir s = Writable")
          case True
          then have "f pid t start (s\<lparr>settings_json_lock := None\<rparr>) = Some r"
            using Some LockFile stale round.hyps
            by (simp add: create_lockfile_def stat_lockfile_def unlink_lockfile_def)
          then have "lock_outcome pid t start (s\<lparr>settings_json_lock := None\<rparr>) r"
            by (rule round.IH)
          then show ?thesis using True
            by (auto simp: lock_outcome_def split: sum.splits if_splits)
        next
          case False
          then have "f pid t start s = Some r" using Some LockFile stale round.hyps
            by (simp add: create_lockfile_def stat_lockfile_def unlink_lockfile_def)
          then show ?thesis by (rule round.IH)
        qed
      next
        case fresh: False
        show ?thesis
        proof (cases "clock s - start > t")
          case True
          then have "r = (Inl (Error lock_timeout_message), s)"
            using Some LockFile fresh round.hyps
            by (simp add: create_lockfile_def stat_lockfile_def)
          then show ?thesis using True Some by (simp add: lock_outcome_def)
        next
          case False
          let ?s = "s\<lparr>clock := clock s + retryInterval\<rparr>"
          have "f pid t start ?s = Some r" using Some LockFile fresh False round.hyps
            by (simp add: create_lockfile_def stat_lockfile_def)
          then have "lock_outcome pid t start ?s r" by (rule round.IH)
          then show ?thesis using False Some
            by (auto simp: lock_outcome_def retryInterval_def split: sum.splits if_splits)
        qed
      qed
    qed
  qed
qed

text \<open>
  The call returns when there is no lockfile, and when there is one that can be read and
  either the directory is writable or the lockfile stays younger than 30 seconds until
  the timeout.
\<close>

lemma acquireLoop_terminates:
  assumes "settings_json_lock s \<noteq> Some DanglingLink"
    and "claude_dir s = Writable \<or> settings_json_lock s = None \<or>
         (\<exists>l. settings_json_lock s = Some (LockFile l) \<and> clock s - start \<le> t + retryInterval \<and>
              start + t + retryInterval - mtimeMs l \<le> 30000)"
  shows "\<exists>r. acquireLoop pid t start s = Some r"
  using assms
proof (induction "nat (t + retryInterval - (clock s - start))" arbitrary: s rule: less_induct)
  case less
  show ?case
  proof (cases "settings_json_lock s")
    case None
    then show ?thesis
      using acquire_free [of s pid t start] acquire_rethrow [of s pid t start] by blast
  next
    case (Some entry)
    then obtain l where l: "settings_json_lock s = Some (LockFile l)"
      using less.prems(1) by (cases entry) simp_all
    show ?thesis
    proof (cases "clock s - mtimeMs l > 30000")
      case True
      then have "claude_dir s = Writable" using less.prems(2) l by auto
      then show ?thesis using acquire_stale [OF l True] by blast
    next
      case fresh: False
      show ?thesis
      proof (cases "clock s - start > t")
        case True
        then have "acquireLoop pid t start s = Some (Inl (Error lock_timeout_message), s)"
          using l fresh
          by (subst acquireLoop.simps) (simp add: create_lockfile_def stat_lockfile_def)
        then show ?thesis by blast
      next
        case False
        let ?s = "s\<lparr>clock := clock s + retryInterval\<rparr>"
        have eq: "acquireLoop pid t start s = acquireLoop pid t start ?s"
          using l fresh False
          by (subst acquireLoop.simps) (simp add: create_lockfile_def stat_lockfile_def)
        have "nat (t + retryInterval - (clock ?s - start)) < nat (t + retryInterval - (clock s - start))"
          using False by (simp add: retryInterval_def)
        moreover have "settings_json_lock ?s \<noteq> Some DanglingLink" using l by simp
        moreover have "claude_dir ?s = Writable \<or> settings_json_lock ?s = None \<or>
         (\<exists>l. settings_json_lock ?s = Some (LockFile l) \<and> clock ?s - start \<le> t + retryInterval \<and>
              start + t + retryInterval - mtimeMs l \<le> 30000)"
          using less.prems(2) l False by auto
        ultimately have "\<exists>r. acquireLoop pid t start ?s = Some r" by (rule less.hyps)
        then show ?thesis unfolding eq .
      qed
    qed
  qed
qed

text \<open>
  The call never returns when the name cannot be read, and when the lockfile is stale in
  a directory that is not writable.
\<close>

lemma acquireLoop_hangs:
  assumes "settings_json_lock s = Some DanglingLink \<or>
     (\<exists>l. settings_json_lock s = Some (LockFile l) \<and> clock s - mtimeMs l > 30000 \<and>
          claude_dir s \<noteq> Writable)"
  shows "acquireLoop pid t start s = None"
proof (rule ccontr)
  assume "acquireLoop pid t start s \<noteq> None"
  then obtain r where "acquireLoop pid t start s = Some r" by blast
  then have "\<not> (settings_json_lock s = Some DanglingLink \<or>
     (\<exists>l. settings_json_lock s = Some (LockFile l) \<and> clock s - mtimeMs l > 30000 \<and>
          claude_dir s \<noteq> Writable))"
  proof (induction pid t start s r rule: acquireLoop_induct)
    case (round f pid t start s r)
    show ?case
    proof
      assume h: "settings_json_lock s = Some DanglingLink \<or>
        (\<exists>l. settings_json_lock s = Some (LockFile l) \<and> clock s - mtimeMs l > 30000 \<and>
          claude_dir s \<noteq> Writable)"
      then have "f pid t start s = Some r" using round.hyps
        by (auto simp: create_lockfile_def stat_lockfile_def unlink_lockfile_def)
      from round.IH [OF this] h show False by blast
    qed
  qed
  then show False using assms by blast
qed

lemma acquireSettingsLock_returns:
  "acquireSettingsLock pid t s = Some r \<Longrightarrow> lock_outcome pid t (clock s) s r"
  unfolding acquireSettingsLock_def by (rule acquireLoop_returns)

lemma acquireSettingsLock_outcome:
  assumes "settings_json_lock s \<noteq> Some DanglingLink" and "claude_dir s = Writable"
  shows "\<exists>r. acquireSettingsLock pid t s = Some r \<and> lock_outcome pid t (clock s) s r"
proof -
  obtain r where "acquireLoop pid t (clock s) s = Some r"
    using acquireLoop_terminates [of s "clock s" t pid] assms by blast
  then show ?thesis using acquireLoop_returns by (simp add: acquireSettingsLock_def)
qed

text \<open>A lockfile that stays younger than 30 seconds until the timeout: the call times out.\<close>

lemma acquireLoop_held:
  assumes "settings_json_lock s = Some (LockFile l)" and "clock s - start \<le> t + retryInterval"
    and "start + t + retryInterval - mtimeMs l \<le> 30000"
  shows "\<exists>s'. acquireLoop pid t start s = Some (Inl (Error lock_timeout_message), s') \<and>
           t < clock s' - start \<and> clock s' - start \<le> t + retryInterval \<and>
           s' = s\<lparr>clock := clock s'\<rparr>"
  using assms
proof (induction "nat (t + retryInterval - (clock s - start))" arbitrary: s rule: less_induct)
  case less
  have fresh: "\<not> clock s - mtimeMs l > 30000" using less.prems by simp
  show ?case
  proof (cases "clock s - start > t")
    case True
    then have "acquireLoop pid t start s = Some (Inl (Error lock_timeout_message), s)"
      using less.prems(1) fresh
      by (subst acquireLoop.simps) (simp add: create_lockfile_def stat_lockfile_def)
    then show ?thesis using True less.prems(2) by simp
  next
    case False
    let ?s = "s\<lparr>clock := clock s + retryInterval\<rparr>"
    have eq: "acquireLoop pid t start s = acquireLoop pid t start ?s"
      using less.prems(1) fresh False
      by (subst acquireLoop.simps) (simp add: create_lockfile_def stat_lockfile_def)
    have "nat (t + retryInterval - (clock ?s - start)) < nat (t + retryInterval - (clock s - start))"
      using False by (simp add: retryInterval_def)
    moreover have "settings_json_lock ?s = Some (LockFile l)" using less.prems(1) by simp
    moreover have "clock ?s - start \<le> t + retryInterval" using False by simp
    ultimately have "\<exists>s'. acquireLoop pid t start ?s = Some (Inl (Error lock_timeout_message), s') \<and>
           t < clock s' - start \<and> clock s' - start \<le> t + retryInterval \<and>
           s' = ?s\<lparr>clock := clock s'\<rparr>"
      using less.prems(3) by (rule less.hyps)
    then show ?thesis unfolding eq by simp
  qed
qed

lemma acquireSettingsLock_held:
  assumes "settings_json_lock s = Some (LockFile l)"
    and "clock s + t + retryInterval - mtimeMs l \<le> 30000" and "0 \<le> t"
  shows "\<exists>s'. acquireSettingsLock pid t s = Some (Inl (Error lock_timeout_message), s') \<and>
           t < clock s' - clock s \<and> clock s' - clock s \<le> t + retryInterval \<and>
           s' = s\<lparr>clock := clock s'\<rparr>"
  unfolding acquireSettingsLock_def
  using acquireLoop_held [OF assms(1) _ assms(2), of pid] assms(3) by (simp add: retryInterval_def)

lemma messages_differ: "lock_timeout_message \<noteq> corrupted_message"
  by (simp add: lock_timeout_message_def corrupted_message_def)

lemma locked_update_timeout:
  assumes "locked_update f pid s = Some (Inl (Error lock_timeout_message), s1)"
  shows "5000 < clock s1 - clock s \<and> clock s1 - clock s \<le> 5000 + retryInterval \<and>
         settings_json s1 = settings_json s \<and> settings_json_lock s1 = settings_json_lock s"
proof -
  from assms obtain r sa where a: "acquireSettingsLock pid 5000 s = Some (r, sa)"
    by (auto simp: locked_update_def split: option.splits)
  have o: "lock_outcome pid 5000 (clock s) s (r, sa)"
    using acquireSettingsLock_returns [OF a] .
  then have "sa = s\<lparr>clock := clock sa, settings_json_lock := settings_json_lock sa\<rparr>"
    by (simp add: lock_outcome_def)
  then have sj: "settings_json sa = settings_json s"
    by (metis files.select_convs(3) files.surjective files.update_convs(1,4))
  show ?thesis
  proof (cases r)
    case (Inl e)
    then have "e = Error lock_timeout_message" "s1 = sa"
      using a assms by (simp_all add: locked_update_def)
    then show ?thesis using o Inl sj by (simp add: lock_outcome_def retryInterval_def)
  next
    case (Inr u)
    then have "loadSettings sa = Inl (Error lock_timeout_message)"
      using a assms by (auto simp: locked_update_def split: sum.splits)
    then have False using messages_differ
      by (auto simp: loadSettings_def empty_settings_def split: option.splits settings_text.splits)
    then show ?thesis ..
  qed
qed

lemma held_times_out:
  "acquireSettingsLock 42 5000 held_lock_state =
     Some (Inl (Error lock_timeout_message), held_lock_state\<lparr>clock := 105100\<rparr>)"
  unfolding acquireSettingsLock_def held_lock_state_def no_files_def
  by (subst acquireLoop.simps,
      simp add: create_lockfile_def stat_lockfile_def unlink_lockfile_def retryInterval_def)+

lemma fresh_home_rethrows:
  "acquireSettingsLock 42 5000 fresh_home = Some (Inl (ErrnoException ''ENOENT''), fresh_home)"
  unfolding acquireSettingsLock_def fresh_home_def no_files_def
  by (subst acquireLoop.simps) (simp add: create_lockfile_def)

lemma timeout_message_says:
  "str_includes ''Another process may be modifying Claude settings'' lock_timeout_message"
proof -
  have "lock_timeout_message =
      ''Timeout waiting for settings.json lock. ''
      @ ''Another process may be modifying Claude settings'' @ ''.''"
    by (simp add: lock_timeout_message_def)
  then show ?thesis by (rule str_includesI)
qed

lemma undeletable_hangs: "acquireSettingsLock 42 5000 undeletable_lock_state = None"
  unfolding acquireSettingsLock_def
  by (rule acquireLoop_hangs)
     (simp add: undeletable_lock_state_def stale_lock_state_def no_files_def)

lemma unreadable_hangs: "acquireSettingsLock 42 5000 unreadable_lock_state = None"
  unfolding acquireSettingsLock_def
  by (rule acquireLoop_hangs) (simp add: unreadable_lock_state_def no_files_def)

text \<open>
  C6 as stated fails. In a home directory without \<open>~/.claude\<close> no lock is taken and the
  error is not the timeout: the error of the create, \<open>ENOENT\<close>, is thrown again at once.
  A lockfile 30001 ms old in a directory that is not writable is not replaced, and the
  call never returns: the failed \<open>unlink\<close> goes to the next round past the check of the
  timeout. The same happens with a name that \<open>stat\<close> cannot read.
\<close>

theorem acquireSettingsLock_rethrow_counterexample:
  "acquireSettingsLock 42 5000 fresh_home = Some (Inl (ErrnoException ''ENOENT''), fresh_home) \<and>
   settings_json_lock fresh_home = None \<and>
   settings_json_lock undeletable_lock_state
     = Some (LockFile \<lparr>lock_pid = 7, mtimeMs = 69999\<rparr>) \<and>
   clock undeletable_lock_state - 69999 > 30000 \<and>
   acquireSettingsLock 42 5000 undeletable_lock_state = None \<and>
   acquireSettingsLock 42 5000 unreadable_lock_state = None"
proof -
  have "settings_json_lock fresh_home = None"
    "settings_json_lock undeletable_lock_state
       = Some (LockFile \<lparr>lock_pid = 7, mtimeMs = 69999\<rparr>)"
    "clock undeletable_lock_state - 69999 > 30000"
    by (simp_all add: fresh_home_def undeletable_lock_state_def stale_lock_state_def no_files_def)
  then show ?thesis using fresh_home_rethrows undeletable_hangs unreadable_hangs by simp
qed

text \<open>
  C6, as amended. A lockfile older than 30 seconds in a writable directory is deleted and
  the lock is taken at once: the result is the caller's lockfile, written at the time of
  the call, with no time spent waiting. A lockfile that stays younger than 30 seconds
  until the timeout and one retry interval have passed makes the call fail with the
  timeout error, whose message says that another process may be modifying the settings,
  after more than the timeout and no more than one retry interval later, with only the
  clock changed. In a writable directory, with a lockfile that can be read or none, the
  call returns within the timeout and one retry interval with the lock or with the timeout
  error. Without a lockfile in a missing or read-only directory the error of the create is
  thrown again at once. Whenever the call returns, only the clock and the lockfile have
  changed; \<open>install\<close> and \<open>remove\<close> wait with the default of 5000 ms and leave the settings
  file as it was when they time out.
\<close>

theorem acquireSettingsLock_stale_or_timeout:
  "(settings_json_lock s = Some (LockFile l) \<and> clock s - mtimeMs l > 30000 \<and>
    claude_dir s = Writable \<longrightarrow>
      acquireSettingsLock pid timeoutMs s =
        Some (Inr (), s\<lparr>settings_json_lock :=
                          Some (LockFile \<lparr>lock_pid = pid, mtimeMs = clock s\<rparr>)\<rparr>)) \<and>
   (settings_json_lock s = Some (LockFile l) \<and>
    clock s + timeoutMs + retryInterval - mtimeMs l \<le> 30000 \<and> 0 \<le> timeoutMs \<longrightarrow>
      (\<exists>s'. acquireSettingsLock pid timeoutMs s = Some (Inl (Error lock_timeout_message), s') \<and>
            timeoutMs < clock s' - clock s \<and> clock s' - clock s \<le> timeoutMs + retryInterval \<and>
            s' = s\<lparr>clock := clock s'\<rparr>)) \<and>
   (settings_json_lock s \<noteq> Some DanglingLink \<and> claude_dir s = Writable \<and> 0 \<le> timeoutMs \<longrightarrow>
      (\<exists>r. acquireSettingsLock pid timeoutMs s = Some r \<and>
           lock_outcome pid timeoutMs (clock s) s r \<and>
           clock (snd r) - clock s \<le> timeoutMs + retryInterval \<and>
           (fst r = Inr () \<or> fst r = Inl (Error lock_timeout_message)))) \<and>
   (settings_json_lock s = None \<and> claude_dir s \<noteq> Writable \<longrightarrow>
      acquireSettingsLock pid timeoutMs s =
        Some (Inl (ErrnoException (if claude_dir s = Missing then ''ENOENT'' else ''EACCES'')), s)) \<and>
   (\<forall>r. acquireSettingsLock pid timeoutMs s = Some r \<longrightarrow>
      lock_outcome pid timeoutMs (clock s) s r) \<and>
   (locked_update f pid s = Some (Inl (Error lock_timeout_message), s1) \<longrightarrow>
      5000 < clock s1 - clock s \<and> clock s1 - clock s \<le> 5000 + retryInterval \<and>
      settings_json s1 = settings_json s \<and> settings_json_lock s1 = settings_json_lock s) \<and>
   str_includes ''Another process may be modifying Claude settings'' lock_timeout_message"
proof -
  have a: "settings_json_lock s \<noteq> Some DanglingLink \<and> claude_dir s = Writable \<and> 0 \<le> timeoutMs \<longrightarrow>
      (\<exists>r. acquireSettingsLock pid timeoutMs s = Some r \<and>
           lock_outcome pid timeoutMs (clock s) s r \<and>
           clock (snd r) - clock s \<le> timeoutMs + retryInterval \<and>
           (fst r = Inr () \<or> fst r = Inl (Error lock_timeout_message)))"
  proof (intro impI, elim conjE)
    assume h: "settings_json_lock s \<noteq> Some DanglingLink" "claude_dir s = Writable" "0 \<le> timeoutMs"
    from acquireSettingsLock_outcome [OF h(1,2), of pid timeoutMs] obtain r where
      r: "acquireSettingsLock pid timeoutMs s = Some r" "lock_outcome pid timeoutMs (clock s) s r"
      by blast
    have "clock (snd r) - clock s \<le> timeoutMs + retryInterval"
      using r(2) h(3) by (simp add: lock_outcome_def retryInterval_def)
    moreover have "fst r = Inr () \<or> fst r = Inl (Error lock_timeout_message)"
      using r(2) h(2) by (cases "fst r") (auto simp: lock_outcome_def split: if_splits)
    ultimately show "\<exists>r. acquireSettingsLock pid timeoutMs s = Some r \<and>
           lock_outcome pid timeoutMs (clock s) s r \<and>
           clock (snd r) - clock s \<le> timeoutMs + retryInterval \<and>
           (fst r = Inr () \<or> fst r = Inl (Error lock_timeout_message))"
      using r by blast
  qed
  show ?thesis
    using acquire_stale [of s l pid timeoutMs "clock s"] acquireSettingsLock_held [of s l timeoutMs pid]
      acquire_rethrow [of s pid timeoutMs "clock s"] acquireSettingsLock_returns [of pid timeoutMs s]
      locked_update_timeout [of f pid s s1] a timeout_message_says
    by (simp add: acquireSettingsLock_def)
qed

lemma held_update_times_out:
  "locked_update f 42 held_lock_state =
     Some (Inl (Error lock_timeout_message), held_lock_state\<lparr>clock := 105100\<rparr>)"
  by (simp add: locked_update_def held_times_out)

text \<open>
  The theorem at a lockfile 30001 ms old, which is replaced at once, at one written just
  now, which is still held after 5100 ms, and at a read-only directory.
\<close>

theorem acquireSettingsLock_stale_or_timeout_witness:
  "acquireSettingsLock 42 5000 stale_lock_state =
     Some (Inr (), stale_lock_state\<lparr>settings_json_lock :=
                                      Some (LockFile \<lparr>lock_pid = 42, mtimeMs = 100000\<rparr>)\<rparr>) \<and>
   acquireSettingsLock 42 5000 held_lock_state =
     Some (Inl (Error lock_timeout_message), held_lock_state\<lparr>clock := 105100\<rparr>) \<and>
   lock_outcome 42 5000 100000 held_lock_state
     (Inl (Error lock_timeout_message), held_lock_state\<lparr>clock := 105100\<rparr>) \<and>
   acquireSettingsLock 42 5000 (fresh_home\<lparr>claude_dir := ReadOnly\<rparr>) =
     Some (Inl (ErrnoException ''EACCES''), fresh_home\<lparr>claude_dir := ReadOnly\<rparr>) \<and>
   locked_update id 42 held_lock_state =
     Some (Inl (Error lock_timeout_message), held_lock_state\<lparr>clock := 105100\<rparr>) \<and>
   settings_json_lock (held_lock_state\<lparr>clock := 105100\<rparr>) = settings_json_lock held_lock_state"
  using acquireSettingsLock_stale_or_timeout
          [of stale_lock_state "\<lparr>lock_pid = 7, mtimeMs = 69999\<rparr>" 42 5000 id undefined]
        acquireSettingsLock_stale_or_timeout
          [of held_lock_state "\<lparr>lock_pid = 7, mtimeMs = 100000\<rparr>" 42 5000 id
             "held_lock_state\<lparr>clock := 105100\<rparr>"]
        acquireSettingsLock_stale_or_timeout
          [of "fresh_home\<lparr>claude_dir := ReadOnly\<rparr>" undefined 42 5000 id undefined]
        held_times_out held_update_times_out [of id]
  by (simp add: stale_lock_state_def held_lock_state_def fresh_home_def no_files_def)


subsection \<open>install, remove and isInstalled\<close>

lemma map_of_filter_event:
  "map_of (filter_event key ours h) k =
     (if k = key then map_option (filter (\<lambda>m. \<not> ours m)) (map_of h key) else map_of h k)"
  by (simp add: filter_event_def update_conv' split: option.splits)

lemma map_of_push_event:
  "map_of (push_event key entry h) k =
     (if k = key then Some ((case map_of h key of None \<Rightarrow> [] | Some ms \<Rightarrow> ms) @ [entry])
      else map_of h k)"
  by (simp add: push_event_def update_conv')

lemma install_settings_rest: "settings_rest (install_settings svc d) = settings_rest d"
  by (simp add: install_settings_def Let_def)

lemma event_list_install:
  "event_list (install_settings svc d) k =
     (if k = ''Notification'' then
        Some (filter (\<lambda>m. \<not> isOurNotificationHook svc m) (matchers d k) @ [notifyHook svc])
      else if k = ''PermissionRequest'' then
        Some (filter (\<lambda>m. \<not> isOurPermissionHook svc m) (matchers d k) @ [permissionHook svc])
      else if k = ''Stop'' then
        Some (filter (\<lambda>m. \<not> isOurStopHook svc m) (matchers d k) @ [stopHook svc])
      else event_list d k)"
  by (cases "settings_hooks d")
     (auto simp: install_settings_def Let_def event_list_def matchers_def map_of_push_event
        map_of_filter_event split: option.splits)

lemma our_hooks_owned:
  "isOurNotificationHook svc (notifyHook svc)" "isOurStopHook svc (stopHook svc)"
  "isOurPermissionHook svc (permissionHook svc)"
  by (simp_all add: isOurNotificationHook_def isOurStopHook_def isOurPermissionHook_def
      notifyHook_def stopHook_def permissionHook_def)

lemma third_party_filters:
  "filter (\<lambda>m. \<not> isOurNotificationHook svc m \<and> third_party svc m) ms = filter (third_party svc) ms"
  "filter (\<lambda>m. \<not> isOurStopHook svc m \<and> third_party svc m) ms = filter (third_party svc) ms"
  "filter (\<lambda>m. \<not> isOurPermissionHook svc m \<and> third_party svc m) ms = filter (third_party svc) ms"
  by (rule filter_cong, simp, auto simp: third_party_def)+

lemma our_hooks_not_third_party:
  "\<not> third_party svc (notifyHook svc)" "\<not> third_party svc (stopHook svc)"
  "\<not> third_party svc (permissionHook svc)"
  using our_hooks_owned [of svc] by (simp_all add: third_party_def)

lemma matchers_install:
  "matchers (install_settings svc d) ''Notification'' =
     filter (\<lambda>m. \<not> isOurNotificationHook svc m) (matchers d ''Notification'') @ [notifyHook svc]"
  "matchers (install_settings svc d) ''Stop'' =
     filter (\<lambda>m. \<not> isOurStopHook svc m) (matchers d ''Stop'') @ [stopHook svc]"
  "matchers (install_settings svc d) ''PermissionRequest'' =
     filter (\<lambda>m. \<not> isOurPermissionHook svc m) (matchers d ''PermissionRequest'')
       @ [permissionHook svc]"
  "k \<notin> set event_keys \<Longrightarrow> matchers (install_settings svc d) k = matchers d k"
  by (simp_all add: matchers_def [of "install_settings svc d"] event_list_install event_keys_def)
     (simp add: matchers_def)

lemma install_third_party:
  "filter (third_party svc) (matchers (install_settings svc d) k)
     = filter (third_party svc) (matchers d k)"
proof -
  consider "k = ''Notification''" | "k = ''Stop''" | "k = ''PermissionRequest''"
    | "k \<notin> set event_keys" by (auto simp: event_keys_def)
  then show ?thesis
    by cases (simp_all add: matchers_install third_party_filters our_hooks_not_third_party)
qed

lemma install_one_owned:
  "length (filter (isOurNotificationHook svc) (matchers (install_settings svc d) ''Notification'')) = 1"
  "length (filter (isOurStopHook svc) (matchers (install_settings svc d) ''Stop'')) = 1"
  "length (filter (isOurPermissionHook svc)
     (matchers (install_settings svc d) ''PermissionRequest'')) = 1"
  using our_hooks_owned [of svc] by (simp_all add: matchers_install)

text \<open>The same for \<open>remove\<close>.\<close>

lemma strip_event_rest: "settings_rest (strip_event key ours d) = settings_rest d"
  by (simp add: strip_event_def Let_def split: option.splits)

lemma event_list_strip:
  "event_list (strip_event key ours d) k =
     (if k = key then stripped ours (event_list d key) else event_list d k)"
  by (auto simp: strip_event_def event_list_def stripped_def Let_def update_conv' delete_conv'
      split: option.splits)

lemma remove_settings_rest: "settings_rest (remove_settings svc d) = settings_rest d"
  by (simp add: remove_settings_def Let_def strip_event_rest split: option.splits)

lemma event_list_drop_empty:
  "event_list (case settings_hooks d of None \<Rightarrow> d
               | Some h \<Rightarrow> if length h = 0 then d\<lparr>settings_hooks := None\<rparr> else d) k
     = event_list d k"
  by (simp add: event_list_def split: option.splits)

lemma event_list_remove:
  "event_list (remove_settings svc d) k =
     (if k = ''Notification'' then stripped (isOurNotificationHook svc) (event_list d k)
      else if k = ''Stop'' then stripped (isOurStopHook svc) (event_list d k)
      else if k = ''PermissionRequest'' then stripped (isOurPermissionHook svc) (event_list d k)
      else event_list d k)"
  unfolding remove_settings_def Let_def event_list_drop_empty
  by (simp add: event_list_strip)

lemma remove_no_empty_container: "settings_hooks (remove_settings svc d) \<noteq> Some []"
  by (simp add: remove_settings_def Let_def split: option.splits)

lemma matchers_stripped:
  "(case stripped ours l of None \<Rightarrow> [] | Some ms \<Rightarrow> ms)
     = filter (\<lambda>m. \<not> ours m) (case l of None \<Rightarrow> [] | Some ms \<Rightarrow> ms)"
  by (simp add: stripped_def split: option.splits)

lemma matchers_remove:
  "matchers (remove_settings svc d) ''Notification'' =
     filter (\<lambda>m. \<not> isOurNotificationHook svc m) (matchers d ''Notification'')"
  "matchers (remove_settings svc d) ''Stop'' =
     filter (\<lambda>m. \<not> isOurStopHook svc m) (matchers d ''Stop'')"
  "matchers (remove_settings svc d) ''PermissionRequest'' =
     filter (\<lambda>m. \<not> isOurPermissionHook svc m) (matchers d ''PermissionRequest'')"
  "k \<notin> set event_keys \<Longrightarrow> matchers (remove_settings svc d) k = matchers d k"
  by (simp_all add: matchers_def event_list_remove event_keys_def matchers_stripped)

lemma remove_third_party:
  "filter (third_party svc) (matchers (remove_settings svc d) k)
     = filter (third_party svc) (matchers d k)"
proof -
  consider "k = ''Notification''" | "k = ''Stop''" | "k = ''PermissionRequest''"
    | "k \<notin> set event_keys" by (auto simp: event_keys_def)
  then show ?thesis
    by cases (simp_all add: matchers_remove third_party_filters)
qed

lemma loadSettings_cong:
  "settings_json s' = settings_json s \<Longrightarrow> loadSettings s' = loadSettings s"
  by (simp add: loadSettings_def)

lemma release_held:
  "settings_json_lock s = Some entry \<Longrightarrow> claude_dir s = Writable \<Longrightarrow>
   releaseSettingsLock s = s\<lparr>settings_json_lock := None\<rparr>"
  by (simp add: releaseSettingsLock_def unlink_lockfile_def)

lemma locked_update_ok:
  assumes "locked_update f pid s = Some (Inr (), s1)"
  shows "\<exists>d. loadSettings s = Inr d \<and> loadSettings s1 = Inr (f d) \<and>
           settings_json_lock s1 = None \<and> claude_dir s1 = Writable \<and>
           notify_sh s1 = notify_sh s \<and>
           notify_sh_backup s1 = notify_sh_backup s \<and> stop_notify_sh s1 = stop_notify_sh s \<and>
           permission_notify_sh s1 = permission_notify_sh s"
proof -
  from assms obtain r sa where a: "acquireSettingsLock pid 5000 s = Some (r, sa)"
    by (auto simp: locked_update_def split: option.splits)
  from assms a obtain d where r: "r = Inr ()" and d: "loadSettings sa = Inr d"
    and s1: "s1 = releaseSettingsLock (saveSettings (f d) sa)"
    by (auto simp: locked_update_def split: sum.splits)
  have o: "lock_outcome pid 5000 (clock s) s (Inr (), sa)"
    using acquireSettingsLock_returns [OF a] r by simp
  then have sa: "sa = s\<lparr>clock := clock sa, settings_json_lock := settings_json_lock sa\<rparr>"
    and w: "claude_dir s = Writable"
    and l: "settings_json_lock sa = Some (LockFile \<lparr>lock_pid = pid, mtimeMs = clock sa\<rparr>)"
    unfolding lock_outcome_def snd_conv fst_conv sum.case by blast+
  have f: "settings_json sa = settings_json s" "notify_sh sa = notify_sh s"
    "notify_sh_backup sa = notify_sh_backup s" "stop_notify_sh sa = stop_notify_sh s"
    "permission_notify_sh sa = permission_notify_sh s" "claude_dir sa = claude_dir s"
    by (subst sa, simp)+
  have s1': "s1 = (saveSettings (f d) sa)\<lparr>settings_json_lock := None\<rparr>"
    unfolding s1 by (rule release_held [of _ "LockFile \<lparr>lock_pid = pid, mtimeMs = clock sa\<rparr>"])
      (simp_all add: saveSettings_def l f(6) w)
  have "loadSettings s = Inr d" using d f(1) loadSettings_cong by metis
  moreover have "loadSettings s1 = Inr (f d)"
    by (simp add: s1' saveSettings_def loadSettings_def)
  ultimately show ?thesis
    using f w by (auto simp: s1' saveSettings_def)
qed

lemma locked_update_free:
  assumes "settings_json_lock s = None" and "claude_dir s = Writable" and "loadSettings s = Inr d"
  shows "\<exists>s1. locked_update f pid s = Some (Inr (), s1)"
proof -
  have "acquireSettingsLock pid 5000 s =
      Some (Inr (), s\<lparr>settings_json_lock :=
                        Some (LockFile \<lparr>lock_pid = pid, mtimeMs = clock s\<rparr>)\<rparr>)"
    using assms(1,2) by (simp add: acquireSettingsLock_def acquire_free)
  moreover have "loadSettings (s\<lparr>settings_json_lock :=
                        Some (LockFile \<lparr>lock_pid = pid, mtimeMs = clock s\<rparr>)\<rparr>)
      = Inr d"
    using assms(3) by (simp add: loadSettings_def)
  ultimately show ?thesis by (simp add: locked_update_def)
qed

lemma loadSettings_backup: "loadSettings (backupExistingScript s) = loadSettings s"
  by (rule loadSettings_cong) (simp add: backupExistingScript_def split: option.splits)

lemma lock_backup: "settings_json_lock (backupExistingScript s) = settings_json_lock s"
  by (simp add: backupExistingScript_def split: option.splits)

lemma dir_backup: "claude_dir (backupExistingScript s) = claude_dir s"
  by (simp add: backupExistingScript_def split: option.splits)

lemma loadSettings_mkdir: "loadSettings (mkdir_hooksDir s) = loadSettings s"
  by (rule loadSettings_cong) (simp add: mkdir_hooksDir_def)

lemma lock_mkdir: "settings_json_lock (mkdir_hooksDir s) = settings_json_lock s"
  by (simp add: mkdir_hooksDir_def)

lemma dir_mkdir: "claude_dir s \<noteq> ReadOnly \<Longrightarrow> claude_dir (mkdir_hooksDir s) = Writable"
  by (cases "claude_dir s") (simp_all add: mkdir_hooksDir_def)

lemma scripts_written_simps:
  "loadSettings (scripts_written fmt c s) = loadSettings s"
  "settings_json_lock (scripts_written fmt c s) = settings_json_lock s"
  "claude_dir s \<noteq> ReadOnly \<Longrightarrow> claude_dir (scripts_written fmt c s) = Writable"
  "notify_sh (scripts_written fmt c s) \<noteq> None"
proof -
  have "loadSettings (scripts_written fmt c s) = loadSettings (backupExistingScript (mkdir_hooksDir s))"
    by (rule loadSettings_cong) (simp add: scripts_written_def)
  then show "loadSettings (scripts_written fmt c s) = loadSettings s"
    by (simp add: loadSettings_backup loadSettings_mkdir)
  show "settings_json_lock (scripts_written fmt c s) = settings_json_lock s"
    by (simp add: scripts_written_def lock_backup lock_mkdir)
  show "claude_dir s \<noteq> ReadOnly \<Longrightarrow> claude_dir (scripts_written fmt c s) = Writable"
    by (simp add: scripts_written_def dir_backup dir_mkdir)
  show "notify_sh (scripts_written fmt c s) \<noteq> None"
    by (simp add: scripts_written_def)
qed

lemma install_succeeds:
  assumes "install fmt svc pid config s = Some (Inr (), s1)"
  shows "\<exists>c. locked_update (install_settings svc) pid (scripts_written fmt c s) = Some (Inr (), s1)"
  using assms
  by (auto simp: install_def Let_def scripts_written_def split: sum.splits option.splits)

lemma install_ok:
  assumes "install fmt svc pid config s = Some (Inr (), s1)" and "loadSettings s = Inr d"
  shows "loadSettings s1 = Inr (install_settings svc d) \<and> settings_json_lock s1 = None \<and>
         claude_dir s1 = Writable \<and> notify_sh s1 \<noteq> None"
proof -
  from install_succeeds [OF assms(1)] obtain c where
    u: "locked_update (install_settings svc) pid (scripts_written fmt c s) = Some (Inr (), s1)"
    by blast
  from locked_update_ok [OF u] assms(2) scripts_written_simps(1,4) [of fmt c s]
  show ?thesis by auto
qed

lemma install_free:
  assumes "settings_json_lock s = None" and "claude_dir s \<noteq> ReadOnly"
    and "loadSettings s = Inr d"
  shows "\<exists>s1. install fmt svc pid config s = Some (Inr (), s1)"
proof -
  obtain v where v: "validateConfig config = Inr v" "config_valid v"
    using validateConfig_valid by blast
  obtain c where c: "asConfig v = Some c" using valid_config_decodes v(2) by blast
  have "settings_json_lock (scripts_written fmt c s) = None"
    "claude_dir (scripts_written fmt c s) = Writable"
    "loadSettings (scripts_written fmt c s) = Inr d"
    using assms by (simp_all add: scripts_written_simps)
  then obtain s1 where
    "locked_update (install_settings svc) pid (scripts_written fmt c s) = Some (Inr (), s1)"
    using locked_update_free by blast
  then show ?thesis using v(1) c by (simp add: install_def Let_def scripts_written_def)
qed

lemma install_loads:
  assumes "install fmt svc pid config s = Some (Inr (), s1)"
  shows "\<exists>d. loadSettings s = Inr d"
proof -
  from install_succeeds [OF assms] obtain c where
    u: "locked_update (install_settings svc) pid (scripts_written fmt c s) = Some (Inr (), s1)"
    by blast
  from locked_update_ok [OF u] scripts_written_simps(1) [of fmt c s] show ?thesis by auto
qed

lemma remove_ok:
  assumes "remove svc pid s = Some (Inr (), s2)" and "loadSettings s = Inr d"
  shows "loadSettings s2 = Inr (remove_settings svc d) \<and> notify_sh s2 = None"
proof -
  from assms(1) obtain s1 where u: "locked_update (remove_settings svc) pid s = Some (Inr (), s1)"
    and s2: "s2 = s1\<lparr>notify_sh := None, stop_notify_sh := None, permission_notify_sh := None\<rparr>"
    by (auto simp: remove_def split: option.splits prod.splits sum.splits)
  from locked_update_ok [OF u] assms(2) have "loadSettings s1 = Inr (remove_settings svc d)"
    by auto
  moreover have "loadSettings s2 = loadSettings s1" unfolding s2 by (rule loadSettings_cong) simp
  ultimately show ?thesis by (simp add: s2)
qed

lemma remove_free:
  assumes "settings_json_lock s = None" and "claude_dir s = Writable" and "loadSettings s = Inr d"
  shows "\<exists>s2. remove svc pid s = Some (Inr (), s2)"
proof -
  obtain s1 where "locked_update (remove_settings svc) pid s = Some (Inr (), s1)"
    using locked_update_free [OF assms] by blast
  then show ?thesis by (simp add: remove_def)
qed

lemma not_installed_without_script: "notify_sh s = None \<Longrightarrow> \<not> isInstalled svc s"
  by (simp add: isInstalled_def)

lemma not_installed_after_strip:
  assumes "loadSettings s = Inr (remove_settings svc d)"
  shows "\<not> isInstalled svc s"
proof -
  let ?l = "event_list (remove_settings svc d) ''Notification''"
  have key: "\<not> list_ex (isOurNotificationHook svc) ms" if "?l = Some ms" for ms
    using that
    by (auto simp: event_list_remove stripped_def list_ex_iff split: option.splits if_splits)
  have "isInstalled svc s =
      (case notify_sh s of None \<Rightarrow> False
       | Some script \<Rightarrow> (case ?l of None \<Rightarrow> False
                         | Some ms \<Rightarrow> list_ex (isOurNotificationHook svc) ms))"
    using assms by (simp add: isInstalled_def event_list_def split: option.splits)
  then show ?thesis using key by (simp split: option.splits)
qed

lemma installed_after_install:
  assumes "install fmt svc pid config s = Some (Inr (), s1)"
  shows "isInstalled svc s1"
proof -
  obtain d where d: "loadSettings s = Inr d" using install_loads [OF assms] by blast
  from install_ok [OF assms d] have l: "loadSettings s1 = Inr (install_settings svc d)"
    and n: "notify_sh s1 \<noteq> None" by simp_all
  have "event_list (install_settings svc d) ''Notification'' =
      Some (filter (\<lambda>m. \<not> isOurNotificationHook svc m) (matchers d ''Notification'')
            @ [notifyHook svc])"
    by (simp add: event_list_install)
  then show ?thesis using l n our_hooks_owned(1) [of svc]
    by (auto simp: isInstalled_def event_list_def split: option.splits)
qed

text \<open>
  C3. When \<open>install\<close> or \<open>remove\<close> succeeds on a settings document, the new document has
  the same top-level keys other than \<open>hooks\<close>, the same list under every event key other
  than \<open>Notification\<close>, \<open>Stop\<close> and \<open>PermissionRequest\<close>, and under every event key the same
  matchers with no entry for one of the three script paths, in the same order. After
  \<open>install\<close> the \<open>Notification\<close> list is the old one without the matchers of the main
  script, followed by the new matcher.
\<close>

theorem install_remove_frame:
  assumes "loadSettings s = Inr d"
  shows
    "(install fmt svc pid config s = Some (Inr (), s1) \<longrightarrow>
        loadSettings s1 = Inr (install_settings svc d) \<and>
        settings_rest (install_settings svc d) = settings_rest d \<and>
        (\<forall>k. k \<notin> set event_keys \<longrightarrow>
           event_list (install_settings svc d) k = event_list d k) \<and>
        (\<forall>k. filter (third_party svc) (matchers (install_settings svc d) k)
             = filter (third_party svc) (matchers d k)) \<and>
        matchers (install_settings svc d) ''Notification'' =
          filter (\<lambda>m. \<not> isOurNotificationHook svc m) (matchers d ''Notification'')
            @ [notifyHook svc]) \<and>
     (remove svc pid s = Some (Inr (), s2) \<longrightarrow>
        loadSettings s2 = Inr (remove_settings svc d) \<and>
        settings_rest (remove_settings svc d) = settings_rest d \<and>
        (\<forall>k. k \<notin> set event_keys \<longrightarrow>
           event_list (remove_settings svc d) k = event_list d k) \<and>
        (\<forall>k. filter (third_party svc) (matchers (remove_settings svc d) k)
             = filter (third_party svc) (matchers d k)))"
proof -
  have i: "k \<notin> set event_keys \<Longrightarrow> event_list (install_settings svc d) k = event_list d k" for k
    by (simp add: event_list_install event_keys_def)
  have r: "k \<notin> set event_keys \<Longrightarrow> event_list (remove_settings svc d) k = event_list d k" for k
    by (simp add: event_list_remove event_keys_def)
  show ?thesis
    using install_ok [of fmt svc pid config s s1 d] remove_ok [of svc pid s s2 d] assms i r
      install_settings_rest [of svc d] remove_settings_rest [of svc d]
      install_third_party [of svc d] remove_third_party [of svc d] matchers_install(1) [of svc d]
    by blast
qed

lemma example_install_ok:
  "\<exists>s1. install no_fractions example_service 42 JNull other_tool_state = Some (Inr (), s1)"
proof -
  have "settings_json_lock other_tool_state = None" "claude_dir other_tool_state \<noteq> ReadOnly"
    "loadSettings other_tool_state = Inr other_tool_settings"
    by (simp_all add: other_tool_state_def no_files_def loadSettings_def)
  from install_free [OF this] show ?thesis .
qed

lemma other_tool_not_ours: "\<not> isOurNotificationHook example_service other_tool_matcher"
  by (simp add: isOurNotificationHook_def other_tool_matcher_def example_service_def
      new_HookService_def path_join_def Let_def)

text \<open>
  The scenario of the specification: the matcher of another tool stays, and the new
  matcher comes after it.
\<close>

theorem install_remove_frame_witness:
  "loadSettings other_tool_state = Inr other_tool_settings \<and>
   (\<exists>s1 d1. install no_fractions example_service 42 JNull other_tool_state = Some (Inr (), s1) \<and>
         loadSettings s1 = Inr d1 \<and>
         matchers d1 ''Notification'' = [other_tool_matcher, notifyHook example_service])"
proof -
  obtain s1 where
    e: "install no_fractions example_service 42 JNull other_tool_state = Some (Inr (), s1)"
    using example_install_ok by blast
  have l: "loadSettings other_tool_state = Inr other_tool_settings"
    by (simp add: other_tool_state_def no_files_def loadSettings_def)
  have m: "matchers other_tool_settings ''Notification'' = [other_tool_matcher]"
    by (simp add: matchers_def event_list_def other_tool_settings_def)
  from install_remove_frame [OF l, of no_fractions example_service 42 JNull s1] e
  have "loadSettings s1 = Inr (install_settings example_service other_tool_settings)"
    "matchers (install_settings example_service other_tool_settings) ''Notification'' =
       [other_tool_matcher, notifyHook example_service]"
    using m other_tool_not_ours by simp_all
  then show ?thesis using l e by blast
qed

text \<open>
  C4. After a successful \<open>install\<close>, a second \<open>install\<close> with the same configuration
  succeeds as well, and each of the three event lists then holds exactly one matcher with
  an entry for the corresponding script path.
\<close>

theorem install_twice_one_owned:
  assumes "install fmt svc pid config s = Some (Inr (), s1)"
  shows "\<exists>s2 d2. install fmt svc pid config s1 = Some (Inr (), s2) \<and> loadSettings s2 = Inr d2 \<and>
     length (filter (isOurNotificationHook svc) (matchers d2 ''Notification'')) = 1 \<and>
     length (filter (isOurStopHook svc) (matchers d2 ''Stop'')) = 1 \<and>
     length (filter (isOurPermissionHook svc) (matchers d2 ''PermissionRequest'')) = 1"
proof -
  obtain d where d: "loadSettings s = Inr d" using install_loads [OF assms] by blast
  from install_ok [OF assms d] have l1: "loadSettings s1 = Inr (install_settings svc d)"
    and f1: "settings_json_lock s1 = None" and w1: "claude_dir s1 = Writable" by simp_all
  have "claude_dir s1 \<noteq> ReadOnly" using w1 by simp
  from install_free [OF f1 this l1] obtain s2 where
    s2: "install fmt svc pid config s1 = Some (Inr (), s2)" by blast
  from install_ok [OF s2 l1]
  have "loadSettings s2 = Inr (install_settings svc (install_settings svc d))" by simp
  then show ?thesis using s2 install_one_owned by blast
qed

text \<open>
  The theorem on the document of the scenario.
\<close>

theorem install_twice_one_owned_witness:
  "\<exists>s1 s2 d2.
     install no_fractions example_service 42 JNull other_tool_state = Some (Inr (), s1) \<and>
     install no_fractions example_service 42 JNull s1 = Some (Inr (), s2) \<and>
     loadSettings s2 = Inr d2 \<and>
     length (filter (isOurNotificationHook example_service) (matchers d2 ''Notification'')) = 1 \<and>
     length (filter (isOurStopHook example_service) (matchers d2 ''Stop'')) = 1 \<and>
     length (filter (isOurPermissionHook example_service)
               (matchers d2 ''PermissionRequest'')) = 1"
proof -
  obtain s1 where
    e: "install no_fractions example_service 42 JNull other_tool_state = Some (Inr (), s1)"
    using example_install_ok by blast
  from install_twice_one_owned [OF e] show ?thesis using e by blast
qed

text \<open>
  C5. After a successful \<open>install\<close> the hook is installed; \<open>remove\<close> then succeeds and
  \<open>isInstalled\<close> is false. On every document, \<open>remove\<close> leaves under each of the three
  event keys the matchers without an entry for the corresponding script path, deletes a
  key whose list becomes empty, and never leaves an empty \<open>hooks\<close> object.
\<close>

theorem remove_after_install:
  assumes "install fmt svc pid config s = Some (Inr (), s1)"
  shows "\<exists>s2 d1. isInstalled svc s1 \<and> remove svc pid s1 = Some (Inr (), s2) \<and>
     \<not> isInstalled svc s2 \<and> notify_sh s2 = None \<and>
     loadSettings s1 = Inr d1 \<and> loadSettings s2 = Inr (remove_settings svc d1) \<and>
     (\<forall>d. event_list (remove_settings svc d) ''Notification''
             = stripped (isOurNotificationHook svc) (event_list d ''Notification'') \<and>
          event_list (remove_settings svc d) ''Stop''
             = stripped (isOurStopHook svc) (event_list d ''Stop'') \<and>
          event_list (remove_settings svc d) ''PermissionRequest''
             = stripped (isOurPermissionHook svc) (event_list d ''PermissionRequest'') \<and>
          settings_hooks (remove_settings svc d) \<noteq> Some [])"
proof -
  obtain d where d: "loadSettings s = Inr d" using install_loads [OF assms] by blast
  from install_ok [OF assms d] have l1: "loadSettings s1 = Inr (install_settings svc d)"
    and f1: "settings_json_lock s1 = None" and w1: "claude_dir s1 = Writable" by simp_all
  from remove_free [OF f1 w1 l1] obtain s2 where s2: "remove svc pid s1 = Some (Inr (), s2)" by blast
  from remove_ok [OF s2 l1]
  have l2: "loadSettings s2 = Inr (remove_settings svc (install_settings svc d))"
    and n2: "notify_sh s2 = None" by simp_all
  have "\<not> isInstalled svc s2" using n2 by (rule not_installed_without_script)
  moreover have "event_list (remove_settings svc d') ''Notification''
             = stripped (isOurNotificationHook svc) (event_list d' ''Notification'') \<and>
          event_list (remove_settings svc d') ''Stop''
             = stripped (isOurStopHook svc) (event_list d' ''Stop'') \<and>
          event_list (remove_settings svc d') ''PermissionRequest''
             = stripped (isOurPermissionHook svc) (event_list d' ''PermissionRequest'') \<and>
          settings_hooks (remove_settings svc d') \<noteq> Some []" for d'
    by (simp add: event_list_remove remove_no_empty_container)
  ultimately show ?thesis
    using installed_after_install [OF assms] s2 n2 l1 l2 by blast
qed

lemma example_roundtrip:
  "remove_settings example_service (install_settings example_service other_tool_settings)
     = other_tool_settings"
  by (simp add: remove_settings_def install_settings_def strip_event_def filter_event_def
      push_event_def Let_def other_tool_settings_def other_tool_matcher_def example_service_def
      new_HookService_def path_join_def isOurNotificationHook_def isOurStopHook_def
      isOurPermissionHook_def notifyHook_def stopHook_def permissionHook_def)

text \<open>
  On the document of the scenario, \<open>remove\<close> after \<open>install\<close> gives the document back.
\<close>

theorem remove_after_install_witness:
  "\<exists>s1 s2.
     install no_fractions example_service 42 JNull other_tool_state = Some (Inr (), s1) \<and>
     isInstalled example_service s1 \<and>
     remove example_service 42 s1 = Some (Inr (), s2) \<and>
     \<not> isInstalled example_service s2 \<and> loadSettings s2 = Inr other_tool_settings"
proof -
  obtain s1 where
    e: "install no_fractions example_service 42 JNull other_tool_state = Some (Inr (), s1)"
    using example_install_ok by blast
  have l: "loadSettings other_tool_state = Inr other_tool_settings"
    by (simp add: other_tool_state_def no_files_def loadSettings_def)
  have l1: "loadSettings s1 = Inr (install_settings example_service other_tool_settings)"
    using install_ok [OF e l] by simp
  from remove_after_install [OF e] obtain s2 d1 where
    "isInstalled example_service s1" "remove example_service 42 s1 = Some (Inr (), s2)"
    "\<not> isInstalled example_service s2" "loadSettings s1 = Inr d1"
    "loadSettings s2 = Inr (remove_settings example_service d1)" by blast
  then show ?thesis using l1 example_roundtrip e by auto
qed


subsection \<open>ConfigService\<close>

lemma map_of_fold_update:
  "map_of (fold (\<lambda>kv obj. AList.update (fst kv) (snd kv) obj) xs acc)
     = map_of acc ++ map_of (rev xs)"
proof (induction xs arbitrary: acc)
  case Nil
  then show ?case by simp
next
  case (Cons x xs)
  have "map_of (fold (\<lambda>kv obj. AList.update (fst kv) (snd kv) obj) (x # xs) acc)
      = map_of (AList.update (fst x) (snd x) acc) ++ map_of (rev xs)"
    using Cons.IH by simp
  also have "\<dots> = map_of acc ++ map_of (rev (x # xs))"
    by (simp add: update_conv' map_add_upd_left fun_eq_iff map_add_def split: option.splits)
  finally show ?case .
qed

lemma map_of_rev_distinct: "distinct (map fst xs) \<Longrightarrow> map_of (rev xs) = map_of xs"
proof (induction xs)
  case Nil
  then show ?case by simp
next
  case (Cons x xs)
  then have n: "map_of xs (fst x) = None" by (simp add: map_of_eq_None_iff)
  have "map_of (rev (x # xs)) = map_of [x] ++ map_of (rev xs)" by (simp add: map_of_append)
  also have "\<dots> = map_of [x] ++ map_of xs" using Cons by simp
  also have "\<dots> = map_of (x # xs)"
    using n by (auto simp: map_add_def fun_eq_iff split: option.splits)
  finally show ?case .
qed

lemma map_of_spread_lists:
  assumes "distinct (map fst a)" and "distinct (map fst b)"
  shows "map_of (fold (\<lambda>kv obj. AList.update (fst kv) (snd kv) obj) (a @ b) [])
           = map_of a ++ map_of b"
proof -
  have "map_of (fold (\<lambda>kv obj. AList.update (fst kv) (snd kv) obj) (a @ b) [])
      = map_of (rev b @ rev a)"
    by (simp add: map_of_fold_update)
  also have "\<dots> = map_of (rev a) ++ map_of (rev b)" by (rule map_of_append)
  also have "\<dots> = map_of a ++ map_of b"
    unfolding map_of_rev_distinct [OF assms(1)] map_of_rev_distinct [OF assms(2)] ..
  finally show ?thesis .
qed

lemma field_spread:
  assumes "distinct (map fst kvs)"
  shows "field (spread (default_setting dt) (JObj kvs)) k =
     (case map_of kvs k of Some x \<Rightarrow> Some x | None \<Rightarrow> field (default_setting dt) k)"
proof -
  define d where "d = [(''enabled'', JBool True), (''mode'', JStr ''talk''),
           (''voice'', JStr ''Ava (Premium)''), (''text'', JStr dt)]"
  have dd: "distinct (map fst d)" by (simp add: d_def)
  have ds: "default_setting dt = JObj d" by (simp add: default_setting_def d_def)
  have "field (spread (JObj d) (JObj kvs)) k = (map_of d ++ map_of kvs) k"
    using map_of_spread_lists [OF dd assms] by (simp add: spread_def field_def del: fold_append)
  then show ?thesis
    unfolding ds by (simp add: map_add_def field_def split: option.splits)
qed

lemma merged_field_result:
  assumes "\<not> nullish partial" and "k \<in> set top_keys"
  shows "\<exists>x d. getp partial k = Inr x \<and> field DEFAULT_CONFIG k = Some d \<and>
               merged_field partial k = Inr (if nullish x then d else x)"
proof -
  obtain x where x: "getp partial k = Inr x" using getp_total assms(1) by blast
  from assms(2) consider "k = ''enabled''" | "k = ''volume''" | "k = ''cooldown''"
    by (auto simp: top_keys_def)
  then obtain d where d: "getp DEFAULT_CONFIG k = Inr d" "field DEFAULT_CONFIG k = Some d"
    by cases (simp_all add: DEFAULT_CONFIG_def field_def)
  show ?thesis using x d by (simp add: merged_field_def bindE_def coalesce_def)
qed

lemma default_kind_field:
  assumes "ty \<in> set notificationTypes"
  shows "\<exists>dt. bindE (getp DEFAULT_CONFIG ''notifications'') (\<lambda>dn. getp dn ty)
              = Inr (default_setting dt) \<and>
            kind_field DEFAULT_CONFIG ty = field (default_setting dt)"
  using notificationTypes_cases [OF assms]
proof (elim disjE)
  assume t: "ty = ''permission_prompt''"
  have "kind_field DEFAULT_CONFIG ''permission_prompt'' = field (default_setting ''Permission required'')"
    by (rule ext) (simp add: kind_field_def field_def DEFAULT_CONFIG_def)
  then show ?thesis unfolding t using default_permission_prompt by blast
next
  assume t: "ty = ''idle_prompt''"
  have "kind_field DEFAULT_CONFIG ''idle_prompt'' = field (default_setting ''Done'')"
    by (rule ext) (simp add: kind_field_def field_def DEFAULT_CONFIG_def)
  then show ?thesis unfolding t using default_idle_prompt by blast
next
  assume t: "ty = ''elicitation_dialog''"
  have "kind_field DEFAULT_CONFIG ''elicitation_dialog'' = field (default_setting ''Input needed'')"
    by (rule ext) (simp add: kind_field_def field_def DEFAULT_CONFIG_def)
  then show ?thesis unfolding t using default_elicitation_dialog by blast
next
  assume t: "ty = ''response_complete''"
  have "kind_field DEFAULT_CONFIG ''response_complete'' = field (default_setting ''Response ready'')"
    by (rule ext) (simp add: kind_field_def field_def DEFAULT_CONFIG_def)
  then show ?thesis unfolding t using default_response_complete by blast
qed

lemma merged_setting_result:
  assumes "\<not> nullish partial" and "ty \<in> set notificationTypes"
  shows "\<exists>n p dt. getp partial ''notifications'' = Inr n \<and> opt_get n ty = Inr p \<and>
           kind_field DEFAULT_CONFIG ty = field (default_setting dt) \<and>
           merged_setting partial ty = Inr (spread (default_setting dt) p)"
proof -
  obtain n where n: "getp partial ''notifications'' = Inr n" using getp_total assms(1) by blast
  obtain p where p: "opt_get n ty = Inr p"
    using getp_total [of n ty] by (cases "nullish n") (auto simp: opt_get_def)
  obtain dt where dt:
    "bindE (getp DEFAULT_CONFIG ''notifications'') (\<lambda>dn. getp dn ty) = Inr (default_setting dt)"
    "kind_field DEFAULT_CONFIG ty = field (default_setting dt)"
    using default_kind_field [OF assms(2)] by blast
  have "merged_setting partial ty = Inr (spread (default_setting dt) p)"
    using n p dt(1) by (simp add: merged_setting_def bindE_def)
  then show ?thesis using n p dt(2) by blast
qed

lemma mergeWithDefaults_shape:
  assumes "\<not> nullish partial"
  shows "\<exists>e v c pp ip ed rc.
     merged_field partial ''enabled'' = Inr e \<and> merged_field partial ''volume'' = Inr v \<and>
     merged_field partial ''cooldown'' = Inr c \<and>
     merged_setting partial ''permission_prompt'' = Inr pp \<and>
     merged_setting partial ''idle_prompt'' = Inr ip \<and>
     merged_setting partial ''elicitation_dialog'' = Inr ed \<and>
     merged_setting partial ''response_complete'' = Inr rc \<and>
     mergeWithDefaults partial =
       Inr (JObj [(''enabled'', e), (''volume'', v), (''cooldown'', c),
                  (''notifications'',
                     JObj [(''permission_prompt'', pp), (''idle_prompt'', ip),
                           (''elicitation_dialog'', ed), (''response_complete'', rc)])])"
proof -
  obtain e where e: "merged_field partial ''enabled'' = Inr e"
    using merged_field_result [OF assms, of "''enabled''"] by (auto simp: top_keys_def)
  obtain v where v: "merged_field partial ''volume'' = Inr v"
    using merged_field_result [OF assms, of "''volume''"] by (auto simp: top_keys_def)
  obtain c where c: "merged_field partial ''cooldown'' = Inr c"
    using merged_field_result [OF assms, of "''cooldown''"] by (auto simp: top_keys_def)
  obtain pp where pp: "merged_setting partial ''permission_prompt'' = Inr pp"
    using merged_setting_result [OF assms, of "''permission_prompt''"]
    by (auto simp: notificationTypes_def)
  obtain ip where ip: "merged_setting partial ''idle_prompt'' = Inr ip"
    using merged_setting_result [OF assms, of "''idle_prompt''"]
    by (auto simp: notificationTypes_def)
  obtain ed where ed: "merged_setting partial ''elicitation_dialog'' = Inr ed"
    using merged_setting_result [OF assms, of "''elicitation_dialog''"]
    by (auto simp: notificationTypes_def)
  obtain rc where rc: "merged_setting partial ''response_complete'' = Inr rc"
    using merged_setting_result [OF assms, of "''response_complete''"]
    by (auto simp: notificationTypes_def)
  show ?thesis using e v c pp ip ed rc by (simp add: mergeWithDefaults_def bindE_def)
qed

lemma top_keys_cases:
  "k \<in> set top_keys \<Longrightarrow> k = ''enabled'' \<or> k = ''volume'' \<or> k = ''cooldown''"
  by (simp add: top_keys_def)

lemma field_merged_top:
  assumes "mergeWithDefaults partial = Inr m" and "\<not> nullish partial"
    and "k \<in> set top_keys" and "merged_field partial k = Inr x"
  shows "field m k = Some x"
proof -
  from mergeWithDefaults_shape [OF assms(2)] assms(1) obtain e v c n where
    f: "merged_field partial ''enabled'' = Inr e" "merged_field partial ''volume'' = Inr v"
       "merged_field partial ''cooldown'' = Inr c"
    and m: "m = JObj [(''enabled'', e), (''volume'', v), (''cooldown'', c), (''notifications'', n)]"
    by auto
  from top_keys_cases [OF assms(3)] show ?thesis
  proof (elim disjE)
    assume k: "k = ''enabled''"
    show ?thesis using f(1) assms(4) unfolding k m by (simp add: field_def)
  next
    assume k: "k = ''volume''"
    show ?thesis using f(2) assms(4) unfolding k m by (simp add: field_def)
  next
    assume k: "k = ''cooldown''"
    show ?thesis using f(3) assms(4) unfolding k m by (simp add: field_def)
  qed
qed

lemma kind_field_merged:
  assumes "mergeWithDefaults partial = Inr m" and "\<not> nullish partial"
    and "ty \<in> set notificationTypes" and "merged_setting partial ty = Inr s"
  shows "kind_field m ty k = field s k"
proof -
  from mergeWithDefaults_shape [OF assms(2)] assms(1) obtain e v c pp ip ed rc where
    f: "merged_setting partial ''permission_prompt'' = Inr pp"
       "merged_setting partial ''idle_prompt'' = Inr ip"
       "merged_setting partial ''elicitation_dialog'' = Inr ed"
       "merged_setting partial ''response_complete'' = Inr rc"
    and m: "m = JObj [(''enabled'', e), (''volume'', v), (''cooldown'', c),
                  (''notifications'',
                     JObj [(''permission_prompt'', pp), (''idle_prompt'', ip),
                           (''elicitation_dialog'', ed), (''response_complete'', rc)])]"
    by auto
  from notificationTypes_cases [OF assms(3)] show ?thesis
  proof (elim disjE)
    assume t: "ty = ''permission_prompt''"
    show ?thesis using f(1) assms(4) unfolding t m by (simp add: kind_field_def field_def)
  next
    assume t: "ty = ''idle_prompt''"
    show ?thesis using f(2) assms(4) unfolding t m by (simp add: kind_field_def field_def)
  next
    assume t: "ty = ''elicitation_dialog''"
    show ?thesis using f(3) assms(4) unfolding t m by (simp add: kind_field_def field_def)
  next
    assume t: "ty = ''response_complete''"
    show ?thesis using f(4) assms(4) unfolding t m by (simp add: kind_field_def field_def)
  qed
qed

lemma merged_not_nullish: "mergeWithDefaults partial = Inr m \<Longrightarrow> \<not> nullish partial"
  by (cases partial) (auto simp: mergeWithDefaults_def merged_field_def bindE_def nullish_def)

lemma load_not_legacy:
  assumes "\<not> legacy_shape parsed" and "mergeWithDefaults parsed = Inr m"
  shows "load fmt (Some (JsonText parsed)) = (m, Some (JsonText parsed))"
proof -
  have nn: "\<not> nullish parsed" using assms(2) by (rule merged_not_nullish)
  obtain p where p: "getp parsed ''profiles'' = Inr p" using getp_total nn by blast
  obtain c where c: "getp parsed ''currentProfile'' = Inr c" using getp_total nn by blast
  have l: "\<not> (truthy p \<and> truthy c)" using assms(1) p c by (simp add: legacy_shape_def)
  have "load_parsed fmt parsed (Some (JsonText parsed)) = Inr (m, Some (JsonText parsed))"
    using p c l assms(2) by (auto simp: load_parsed_def bindE_def)
  then show ?thesis by (simp add: load_def bindE_def)
qed

text \<open>
  C10, as amended. On a parsed document that is not null, \<open>mergeWithDefaults\<close> succeeds and
  checks no type: a top-level \<open>enabled\<close>, \<open>volume\<close> or \<open>cooldown\<close> that is not null or
  undefined is returned as it is, whatever its type, and only a null, undefined or absent
  one is replaced by the default; every property of a per-kind setting object replaces the
  default of its key, whatever its value, and the other keys keep their defaults.
  \<open>load\<close> returns this result for every document that does not have the shape of the old
  profile format.
\<close>

theorem mergeWithDefaults_no_type_check:
  assumes "\<not> nullish parsed"
  shows "\<exists>m. mergeWithDefaults parsed = Inr m \<and>
     (\<not> legacy_shape parsed \<longrightarrow>
        load fmt (Some (JsonText parsed)) = (m, Some (JsonText parsed))) \<and>
     (\<forall>k x. k \<in> set top_keys \<and> getp parsed k = Inr x \<longrightarrow>
        field m k = (if nullish x then field DEFAULT_CONFIG k else Some x)) \<and>
     (\<forall>ty n kvs k. ty \<in> set notificationTypes \<and> getp parsed ''notifications'' = Inr n \<and>
          opt_get n ty = Inr (JObj kvs) \<and> distinct (map fst kvs) \<longrightarrow>
        kind_field m ty k =
          (case map_of kvs k of Some x \<Rightarrow> Some x | None \<Rightarrow> kind_field DEFAULT_CONFIG ty k))"
proof -
  obtain m where m: "mergeWithDefaults parsed = Inr m"
    using mergeWithDefaults_shape [OF assms] by blast
  have top: "field m k = (if nullish x then field DEFAULT_CONFIG k else Some x)"
    if "k \<in> set top_keys" "getp parsed k = Inr x" for k x
  proof -
    from merged_field_result [OF assms that(1)] that(2) obtain d where
      "field DEFAULT_CONFIG k = Some d" "merged_field parsed k = Inr (if nullish x then d else x)"
      by auto
    then show ?thesis using field_merged_top [OF m assms that(1)] by simp
  qed
  have kind: "kind_field m ty k =
      (case map_of kvs k of Some x \<Rightarrow> Some x | None \<Rightarrow> kind_field DEFAULT_CONFIG ty k)"
    if "ty \<in> set notificationTypes" "getp parsed ''notifications'' = Inr n"
       "opt_get n ty = Inr (JObj kvs)" "distinct (map fst kvs)" for ty n kvs k
  proof -
    from merged_setting_result [OF assms that(1)] that(2,3) obtain dt where
      d1: "kind_field DEFAULT_CONFIG ty = field (default_setting dt)" and
      d2: "merged_setting parsed ty = Inr (spread (default_setting dt) (JObj kvs))"
      by auto
    show ?thesis
      unfolding kind_field_merged [OF m assms that(1) d2] field_spread [OF that(4)] d1 ..
  qed
  show ?thesis using m load_not_legacy [OF _ m] top kind by blast
qed

lemma string_volume_facts:
  "\<not> nullish string_volume_document" "\<not> legacy_shape string_volume_document"
  "getp string_volume_document ''volume'' = Inr (JStr ''loud'')"
  "getp string_volume_document ''notifications'' = Inr (JObj [(''idle_prompt'', JObj [(''voice'', JNull)])])"
  "opt_get (JObj [(''idle_prompt'', JObj [(''voice'', JNull)])]) ''idle_prompt'' = Inr (JObj [(''voice'', JNull)])"
  by (simp_all add: string_volume_document_def nullish_def legacy_shape_def opt_get_def)

text \<open>
  The theorem at a document with a string for the volume and null for a voice.
\<close>

theorem mergeWithDefaults_no_type_check_witness:
  "\<not> nullish string_volume_document \<and>
   field (fst (load no_fractions (Some (JsonText string_volume_document)))) ''volume''
     = Some (JStr ''loud'') \<and>
   kind_field (fst (load no_fractions (Some (JsonText string_volume_document))))
     ''idle_prompt'' ''voice'' = Some JNull \<and>
   kind_field (fst (load no_fractions (Some (JsonText string_volume_document))))
     ''idle_prompt'' ''text'' = Some (JStr ''Done'')"
proof -
  from mergeWithDefaults_no_type_check [OF string_volume_facts(1), of no_fractions]
  obtain m where m:
    "\<not> legacy_shape string_volume_document \<longrightarrow>
       load no_fractions (Some (JsonText string_volume_document))
         = (m, Some (JsonText string_volume_document))"
    "\<forall>k x. k \<in> set top_keys \<and> getp string_volume_document k = Inr x \<longrightarrow>
        field m k = (if nullish x then field DEFAULT_CONFIG k else Some x)"
    "\<forall>ty n kvs k. ty \<in> set notificationTypes \<and>
          getp string_volume_document ''notifications'' = Inr n \<and>
          opt_get n ty = Inr (JObj kvs) \<and> distinct (map fst kvs) \<longrightarrow>
        kind_field m ty k =
          (case map_of kvs k of Some x \<Rightarrow> Some x | None \<Rightarrow> kind_field DEFAULT_CONFIG ty k)"
    by blast
  have l: "fst (load no_fractions (Some (JsonText string_volume_document))) = m"
    using m(1) string_volume_facts(2) by simp
  have v: "field m ''volume'' = Some (JStr ''loud'')"
    using m(2) string_volume_facts(3) by (auto simp: top_keys_def nullish_def)
  have k: "kind_field m ''idle_prompt'' k =
      (case map_of [(''voice'', JNull)] k of Some x \<Rightarrow> Some x
       | None \<Rightarrow> kind_field DEFAULT_CONFIG ''idle_prompt'' k)" for k
    using m(3) [rule_format, of "''idle_prompt''"
        "JObj [(''idle_prompt'', JObj [(''voice'', JNull)])]" "[(''voice'', JNull)]" k]
      string_volume_facts(4,5)
    by (simp add: notificationTypes_def)
  have "kind_field m ''idle_prompt'' ''voice'' = Some JNull"
    "kind_field m ''idle_prompt'' ''text'' = Some (JStr ''Done'')"
    unfolding k by (simp_all add: kind_field_def field_def DEFAULT_CONFIG_def default_setting_def)
  then show ?thesis using l v string_volume_facts(1) by simp
qed

text \<open>
  C10 as stated fails for \<open>load\<close> on a document of the old profile format: its top-level
  volume is not returned, the selected profile is merged with the defaults instead.
\<close>

theorem load_legacy_counterexample:
  "field legacy_document ''volume'' = Some (JStr ''loud'') \<and>
   field (fst (load no_fractions (Some (JsonText legacy_document)))) ''volume''
     = Some (JNum (Fin 70))"
  by (simp add: legacy_document_def field_def load_def load_parsed_def bindE_def
      mergeWithDefaults_def merged_field_def merged_setting_def coalesce_def nullish_def
      opt_get_def DEFAULT_CONFIG_def spread_def save_def JSON_stringify_def)

lemma json_norm_value: "json_value v \<Longrightarrow> json_norm v = v"
proof (induction v)
  case (JNum n)
  then show ?case by (cases n) simp_all
next
  case (JArr xs)
  then have "map json_norm xs = xs" by (simp add: list_all_iff map_idI)
  then show ?case by simp
next
  case (JObj kvs)
  have v: "json_value (snd kv)" if "kv \<in> set kvs" for kv
    using JObj.prems that by (simp add: list_all_iff)
  have "snd kv \<noteq> JUndefined" if "kv \<in> set kvs" for kv
    using v [OF that] by auto
  then have "filter (\<lambda>kv. snd kv \<noteq> JUndefined) kvs = kvs"
    by (simp add: filter_id_conv)
  moreover have "map (\<lambda>kv. (fst kv, json_norm (snd kv))) kvs = kvs"
  proof (rule map_idI)
    fix kv assume m: "kv \<in> set kvs"
    have "snd kv \<in> Basic_BNFs.snds kv" by (cases kv) simp
    then have "json_norm (snd kv) = snd kv" using JObj.IH [OF m] v [OF m] by blast
    then show "(fst kv, json_norm (snd kv)) = kv" by simp
  qed
  ultimately show ?case by simp
qed simp_all

text \<open>
  C8, as amended. For every configuration other than null that JSON represents exactly (no
  property with the value undefined, no number that is not finite) and that does not have
  the shape of the old profile format, \<open>mergeWithDefaults\<close> succeeds, \<open>save\<close> succeeds and
  \<open>load\<close> then returns \<open>mergeWithDefaults\<close> of the configuration, leaving the file as saved.
\<close>

theorem save_load_roundtrip:
  assumes "json_value cfg" and "\<not> legacy_shape cfg" and "cfg \<noteq> JNull"
  shows "\<exists>m. mergeWithDefaults cfg = Inr m \<and>
             save cfg file = Inr (Some (JsonText cfg)) \<and>
             load fmt (Some (JsonText cfg)) = (m, Some (JsonText cfg))"
proof -
  have u: "cfg \<noteq> JUndefined" using assms(1) by auto
  then have "\<not> nullish cfg" using assms(3) by (simp add: nullish_def)
  then obtain m where m: "mergeWithDefaults cfg = Inr m"
    using mergeWithDefaults_shape by blast
  have "save cfg file = Inr (Some (JsonText cfg))"
    using u json_norm_value [OF assms(1)] by (simp add: save_def JSON_stringify_def)
  then show ?thesis using load_not_legacy [OF assms(2) m, of fmt] m by simp
qed

text \<open>
  The theorem at the configuration with volume 150 and cooldown -1.
\<close>

theorem save_load_roundtrip_witness:
  "json_value out_of_range_config \<and> \<not> legacy_shape out_of_range_config \<and>
   out_of_range_config \<noteq> JNull \<and>
   (\<exists>m. mergeWithDefaults out_of_range_config = Inr m \<and>
        save out_of_range_config None = Inr (Some (JsonText out_of_range_config)) \<and>
        load no_fractions (Some (JsonText out_of_range_config))
          = (m, Some (JsonText out_of_range_config)) \<and>
        field m ''volume'' = Some (JNum (Fin 150)))"
proof -
  have e: "json_value out_of_range_config"
    by (simp add: out_of_range_config_def)
  have l: "\<not> legacy_shape out_of_range_config"
    by (simp add: legacy_shape_def out_of_range_config_def)
  have n: "out_of_range_config \<noteq> JNull" by (simp add: out_of_range_config_def)
  have nn: "\<not> nullish out_of_range_config" by (simp add: nullish_def out_of_range_config_def)
  have g: "merged_field out_of_range_config ''volume'' = Inr (JNum (Fin 150))"
    by (simp add: merged_field_def out_of_range_config_def bindE_def coalesce_def nullish_def
        DEFAULT_CONFIG_def)
  from save_load_roundtrip [OF e l n, of None no_fractions] obtain m where
    m: "mergeWithDefaults out_of_range_config = Inr m"
       "save out_of_range_config None = Inr (Some (JsonText out_of_range_config))"
       "load no_fractions (Some (JsonText out_of_range_config))
          = (m, Some (JsonText out_of_range_config))" by blast
  have "field m ''volume'' = Some (JNum (Fin 150))"
    using field_merged_top [OF m(1) nn _ g] by (simp add: top_keys_def)
  then show ?thesis using e l n m by blast
qed

lemma undefined_voice_not_restored:
  "\<not> json_value undefined_voice_config \<and>
   save undefined_voice_config None = Inr (Some (JsonText (json_norm undefined_voice_config))) \<and>
   kind_field (fst (load no_fractions (Some (JsonText (json_norm undefined_voice_config)))))
     ''permission_prompt'' ''voice'' = Some (JStr ''Ava (Premium)'') \<and>
   Inr (fst (load no_fractions (Some (JsonText (json_norm undefined_voice_config)))))
     \<noteq> mergeWithDefaults undefined_voice_config \<and>
   kind_field (projr (mergeWithDefaults undefined_voice_config)) ''permission_prompt'' ''voice''
     = Some JUndefined"
  by code_simp

lemma null_not_merged:
  "save JNull None = Inr (Some (JsonText JNull)) \<and>
   load no_fractions (Some (JsonText JNull)) = (DEFAULT_CONFIG, Some (JsonText JNull)) \<and>
   mergeWithDefaults JNull = Inl TypeError"
  by code_simp

lemma legacy_not_merged:
  "save legacy_document None = Inr (Some (JsonText legacy_document)) \<and>
   field (fst (load no_fractions (Some (JsonText legacy_document)))) ''volume''
     = Some (JNum (Fin 70)) \<and>
   field (projr (mergeWithDefaults legacy_document)) ''volume'' = Some (JStr ''loud'')"
  by code_simp

text \<open>
  C8 as stated fails in three ways. For a configuration with a property whose value is
  undefined, which the interface admits for the optional \<open>voice\<close>, \<open>JSON.stringify\<close> leaves
  the property out, so \<open>load\<close> returns the default voice, while \<open>mergeWithDefaults\<close> of the
  configuration keeps undefined. For null, \<open>save\<close> writes \<open>null\<close> and \<open>load\<close> returns the
  default configuration, while \<open>mergeWithDefaults\<close> raises. For a configuration of the old
  profile format \<open>load\<close> merges the selected profile, not the configuration.
\<close>

theorem save_load_undefined_voice_counterexample:
  "(\<not> json_value undefined_voice_config \<and>
    save undefined_voice_config None = Inr (Some (JsonText (json_norm undefined_voice_config))) \<and>
    kind_field (fst (load no_fractions (Some (JsonText (json_norm undefined_voice_config)))))
      ''permission_prompt'' ''voice'' = Some (JStr ''Ava (Premium)'') \<and>
    Inr (fst (load no_fractions (Some (JsonText (json_norm undefined_voice_config)))))
      \<noteq> mergeWithDefaults undefined_voice_config \<and>
    kind_field (projr (mergeWithDefaults undefined_voice_config)) ''permission_prompt'' ''voice''
      = Some JUndefined) \<and>
   (save JNull None = Inr (Some (JsonText JNull)) \<and>
    load no_fractions (Some (JsonText JNull)) = (DEFAULT_CONFIG, Some (JsonText JNull)) \<and>
    mergeWithDefaults JNull = Inl TypeError) \<and>
   (save legacy_document None = Inr (Some (JsonText legacy_document)) \<and>
    field (fst (load no_fractions (Some (JsonText legacy_document)))) ''volume''
      = Some (JNum (Fin 70)) \<and>
    field (projr (mergeWithDefaults legacy_document)) ''volume'' = Some (JStr ''loud''))"
  using undefined_voice_not_restored null_not_merged legacy_not_merged by blast

end
